theory Spec2Isabelle
  imports Complex_Main
begin

section \<open>Python values and exceptions\<close>

text \<open>
  Every exception the code can meet is a value. All of them are subclasses of Python's
  \<open>Exception\<close>, which is what the \<open>except Exception\<close> clauses of the source catch.
\<close>

datatype error =
    FileDataError \<comment> \<open>\<open>fitz.open\<close> on a path that holds no readable PDF\<close>
  | DocumentClosed \<comment> \<open>the engine's ValueError on a closed document\<close>
  | PageLoadError \<comment> \<open>the engine cannot load a page of an open document\<close>
  | IndexError
  | TypeError
  | AttributeError
  | ValueError
  | OverflowError
  | WidgetNotFound string \<comment> \<open>\<open>raise Exception("Widget with ... not found")\<close>\<close>
  | InvalidJson \<comment> \<open>\<open>raise Exception("Invalid updated annotation json")\<close>\<close>
  | JsonReadError \<comment> \<open>\<open>open\<close> or \<open>json.load\<close> failed\<close>
  | SaveError \<comment> \<open>\<open>doc.save\<close> could not write the target\<close>

text \<open>
  Python floats. A finite float is the rational it stands for; the non-finite ones are
  kept because \<open>int()\<close> raises on them. The difference of two finite floats is
  taken exactly. That is what the double subtraction gives whenever the exact difference
  is a double again, as it is for integers and binary fractions of moderate size;
  elsewhere the double result is the nearest double, which can move \<open>int()\<close> of the
  difference by one when the exact difference lies within rounding of an integer (and a
  difference past the largest double is infinite). What is stated below about the values
  of a rectangle is stated for coordinates whose difference is exact.
\<close>

datatype pyfloat = Finite rat | PosInf | NegInf | NaN

fun float_sub :: "pyfloat \<Rightarrow> pyfloat \<Rightarrow> pyfloat" where
  "float_sub (Finite a) (Finite b) = Finite (a - b)"
| "float_sub NaN _ = NaN"
| "float_sub _ NaN = NaN"
| "float_sub PosInf PosInf = NaN"
| "float_sub NegInf NegInf = NaN"
| "float_sub PosInf _ = PosInf"
| "float_sub NegInf _ = NegInf"
| "float_sub (Finite a) PosInf = NegInf"
| "float_sub (Finite a) NegInf = PosInf"

text \<open>\<open>int(x)\<close> truncates towards zero; it raises on infinities and NaN.\<close>

fun py_int :: "pyfloat \<Rightarrow> error + int" where
  "py_int (Finite q) = Inr (if 0 \<le> q then \<lfloor>q\<rfloor> else \<lceil>q\<rceil>)"
| "py_int PosInf = Inl OverflowError"
| "py_int NegInf = Inl OverflowError"
| "py_int NaN = Inl ValueError"

text \<open>
  The values \<open>json.load\<close> produces, which are also the values of a payload dict. A
  dict is an association list read by \<open>map_of\<close>.
\<close>

datatype json =
    JNull
  | JBool bool
  | JInt int
  | JFloat rat
  | JStr string
  | JList "json list"
  | JObj "(string \<times> json) list"

text \<open>Python truthiness (\<open>if v:\<close>, \<open>v or d\<close>).\<close>

fun truthy :: "json \<Rightarrow> bool" where
  "truthy JNull = False"
| "truthy (JBool b) = b"
| "truthy (JInt n) = (n \<noteq> 0)"
| "truthy (JFloat q) = (q \<noteq> 0)"
| "truthy (JStr s) = (s \<noteq> [])"
| "truthy (JList xs) = (xs \<noteq> [])"
| "truthy (JObj kv) = (kv \<noteq> [])"

text \<open>\<open>d.get(k)\<close> on a dict: the value, or None.\<close>

definition dict_get :: "(string \<times> json) list \<Rightarrow> string \<Rightarrow> json" where
  "dict_get kv k = (case map_of kv k of None \<Rightarrow> JNull | Some v \<Rightarrow> v)"

text \<open>\<open>v.get(k)\<close> on any value: only a dict has the method.\<close>

fun py_get :: "json \<Rightarrow> string \<Rightarrow> error + json" where
  "py_get (JObj kv) k = Inr (dict_get kv k)"
| "py_get _ k = Inl AttributeError"

text \<open>\<open>for x in v\<close>: a list gives its items, a string its characters, a dict its keys.\<close>

fun py_iter :: "json \<Rightarrow> error + json list" where
  "py_iter (JList xs) = Inr xs"
| "py_iter (JStr s) = Inr (map (\<lambda>c. JStr [c]) s)"
| "py_iter (JObj kv) = Inr (map (\<lambda>p. JStr (fst p)) kv)"
| "py_iter _ = Inl TypeError"

text \<open>Decimal digits of a natural number, for the f-string \<open>f"field_{n}"\<close>.\<close>

fun string_of_nat :: "nat \<Rightarrow> string" where
  "string_of_nat n =
     (if n < 10 then [char_of (48 + n)]
      else string_of_nat (n div 10) @ [char_of (48 + n mod 10)])"

declare string_of_nat.simps [simp del]

section \<open>The data model\<close>

record Position =
  pos_x :: json
  pos_y :: json
  pos_width :: json
  pos_height :: json
  pos_unit :: json

record Formatting =
  font_size :: json
  font_family :: json
  alignment :: json
  max_length :: json
  pattern :: json
  required :: json

record DataReference =
  dr_path :: string
  dr_default_value :: string

record Annotation =
  ann_id :: string
  ann_type :: string
  ann_position :: Position
  ann_formatting :: Formatting
  data_reference :: DataReference
  ann_label :: "string option"

record Pages =
  page_number :: int
  annotations :: "Annotation list"

record UpdateField =
  uf_default_value :: json
  uf_label :: json
  uf_position :: "Position option"
  uf_formatting :: "Formatting option"

section \<open>The PDF engine\<close>

text \<open>
  The engine is an external collaborator. It is modelled by the interface the code
  uses: a document is a sequence of pages, a page a sequence of widgets, a widget a
  bundle of attributes that are assigned and then committed by \<open>update()\<close>.
\<close>

record Rect =
  x0 :: pyfloat
  y0 :: pyfloat
  x1 :: pyfloat
  y1 :: pyfloat

record widget =
  field_name :: "string option"
  field_type_string :: "string option"
  field_value :: "string option"
  field_label :: "string option"
  rect :: Rect
  text_fontsize :: rat
  text_font :: "string option"

text \<open>A page the engine cannot load makes \<open>doc[i]\<close> raise.\<close>

datatype pdf_page = Page "widget list" | DamagedPage

record document =
  is_closed :: bool
  doc_pages :: "pdf_page list"

datatype event = Opened string | Saved string | Closed

text \<open>
  The world outside the object: the PDF and JSON files by path, the engine's
  \<open>widget.update()\<close>, the paths that can be written, and the log of the engine's
  open, save and close calls. \<open>widget_update\<close> takes the widget as the code has
  assigned it and gives the widget as the engine leaves it, or the error the engine
  raises. It is a parameter, so that what is proved of the code holds for every engine;
  \<open>pymupdf_update\<close> below is the one the examples run on.
\<close>

record world =
  pdf_files :: "string \<Rightarrow> pdf_page list option"
  json_files :: "string \<Rightarrow> json option"
  widget_update :: "widget \<Rightarrow> error + widget"
  writable :: "string \<Rightarrow> bool"
  engine_log :: "event list"

text \<open>The object's attributes, in the world it runs in.\<close>

record session = world +
  pdf_path :: string
  name :: string
  year :: int
  version :: string
  doc :: "document option"
  pages :: "Pages list"

section \<open>Engine operations\<close>

text \<open>\<open>fitz.open(self.pdf_path)\<close>: a fresh open document, or the engine's error.\<close>

definition open_document :: "session \<Rightarrow> (error + document) \<times> session" where
  "open_document s =
     (case pdf_files s (pdf_path s) of
        None \<Rightarrow> (Inl FileDataError, s)
      | Some ps \<Rightarrow>
          (Inr \<lparr>is_closed = False, doc_pages = ps\<rparr>,
           s\<lparr>engine_log := engine_log s @ [Opened (pdf_path s)]\<rparr>))"

text \<open>\<open>len(doc)\<close>: the page count; the engine raises on a closed document.\<close>

definition doc_len :: "document \<Rightarrow> error + nat" where
  "doc_len d = (if is_closed d then Inl DocumentClosed else Inr (length (doc_pages d)))"

text \<open>
  \<open>doc[i]\<close> followed by \<open>page.widgets()\<close>: the page's position and its widgets. An
  index at or past the page count is an IndexError; a negative one counts from the end,
  as the engine wraps it by adding the page count until it is non-negative (with no
  page at all it is reported as an IndexError here).
\<close>

definition doc_getitem :: "document \<Rightarrow> int \<Rightarrow> error + (nat \<times> widget list)" where
  "doc_getitem d i =
     (if is_closed d then Inl DocumentClosed
      else if int (length (doc_pages d)) \<le> i \<or> doc_pages d = [] then Inl IndexError
      else (case doc_pages d ! nat (i mod int (length (doc_pages d))) of
              DamagedPage \<Rightarrow> Inl PageLoadError
            | Page ws \<Rightarrow> Inr (nat (i mod int (length (doc_pages d))), ws)))"

text \<open>\<open>doc.close()\<close>.\<close>

definition doc_close :: "document \<Rightarrow> error + document" where
  "doc_close d = (if is_closed d then Inl DocumentClosed else Inr (d\<lparr>is_closed := True\<rparr>))"

text \<open>\<open>doc.save(path)\<close>: writes the document's pages to the path.\<close>

definition doc_save :: "session \<Rightarrow> document \<Rightarrow> string \<Rightarrow> error + session" where
  "doc_save s d p =
     (if is_closed d then Inl DocumentClosed
      else if writable s p
      then Inr (s\<lparr>pdf_files := (pdf_files s)(p \<mapsto> doc_pages d),
                  engine_log := engine_log s @ [Saved p]\<rparr>)
      else Inl SaveError)"

text \<open>
  \<open>widget.update()\<close> of PyMuPDF, on the attributes above. It validates the
  widget: a rectangle that is empty (\<open>x0 >= x1 or y0 >= y1\<close>) or the infinite one is
  a ValueError, and so is a missing field name. It adjusts the font: a font that is, up
  to case, one of Cour, TiRo, Helv and ZaDb is spelled that way, and any other font, or
  none, becomes Helv. Then it writes the widget into the document. Left out is what the
  engine does with the label \<open>"Unnamed"\<close>, its placeholder for no label, which it
  does not write.
\<close>

text \<open>\<open>a <= b\<close> on floats: false whenever one of them is NaN.\<close>

fun float_le :: "pyfloat \<Rightarrow> pyfloat \<Rightarrow> bool" where
  "float_le NaN _ = False"
| "float_le _ NaN = False"
| "float_le NegInf _ = True"
| "float_le _ PosInf = True"
| "float_le (Finite a) (Finite b) = (a \<le> b)"
| "float_le PosInf _ = False"
| "float_le _ NegInf = False"

definition rect_is_empty :: "Rect \<Rightarrow> bool" where
  "rect_is_empty r = (float_le (x1 r) (x0 r) \<or> float_le (y1 r) (y0 r))"

definition rect_is_infinite :: "Rect \<Rightarrow> bool" where
  "rect_is_infinite r =
     (x0 r = Finite (- 2147483648) \<and> y0 r = Finite (- 2147483648) \<and>
      x1 r = Finite 2147483520 \<and> y1 r = Finite 2147483520)"

definition ascii_lower :: "char \<Rightarrow> char" where
  "ascii_lower c =
     (case map_of
        [(CHR ''A'', CHR ''a''), (CHR ''B'', CHR ''b''), (CHR ''C'', CHR ''c''),
         (CHR ''D'', CHR ''d''), (CHR ''E'', CHR ''e''), (CHR ''F'', CHR ''f''),
         (CHR ''G'', CHR ''g''), (CHR ''H'', CHR ''h''), (CHR ''I'', CHR ''i''),
         (CHR ''J'', CHR ''j''), (CHR ''K'', CHR ''k''), (CHR ''L'', CHR ''l''),
         (CHR ''M'', CHR ''m''), (CHR ''N'', CHR ''n''), (CHR ''O'', CHR ''o''),
         (CHR ''P'', CHR ''p''), (CHR ''Q'', CHR ''q''), (CHR ''R'', CHR ''r''),
         (CHR ''S'', CHR ''s''), (CHR ''T'', CHR ''t''), (CHR ''U'', CHR ''u''),
         (CHR ''V'', CHR ''v''), (CHR ''W'', CHR ''w''), (CHR ''X'', CHR ''x''),
         (CHR ''Y'', CHR ''y''), (CHR ''Z'', CHR ''z'')] c of
        Some l \<Rightarrow> l
      | None \<Rightarrow> c)"

definition adjust_font :: "string option \<Rightarrow> string" where
  "adjust_font f =
     (case f of
        None \<Rightarrow> ''Helv''
      | Some n \<Rightarrow>
          (case find (\<lambda>v. map ascii_lower n = map ascii_lower v)
                  [''Cour'', ''TiRo'', ''Helv'', ''ZaDb''] of
             Some v \<Rightarrow> v
           | None \<Rightarrow> ''Helv''))"

definition pymupdf_update :: "widget \<Rightarrow> error + widget" where
  "pymupdf_update w =
     (if rect_is_infinite (rect w) \<or> rect_is_empty (rect w) then Inl ValueError
      else if field_name w = None \<or> field_name w = Some [] then Inl ValueError
      else Inr (w\<lparr>text_font := Some (adjust_font (text_font w))\<rparr>))"

text \<open>The document with widget \<open>i\<close> of page \<open>k\<close> replaced.\<close>

definition put_widget :: "document \<Rightarrow> nat \<Rightarrow> nat \<Rightarrow> widget list \<Rightarrow> widget \<Rightarrow> document" where
  "put_widget d k i ws w = d\<lparr>doc_pages := (doc_pages d)[k := Page (ws[i := w])]\<rparr>"

text \<open>The number a Python value stands for where the engine expects one.\<close>

fun num_of :: "json \<Rightarrow> rat option" where
  "num_of (JInt n) = Some (of_int n)"
| "num_of (JFloat q) = Some q"
| "num_of (JBool b) = Some (if b then 1 else 0)"
| "num_of _ = None"

section \<open>Extraction\<close>

text \<open>\<open>s or d\<close> for an optional string: None and the empty string are falsy.\<close>

fun str_or :: "string option \<Rightarrow> string \<Rightarrow> string" where
  "str_or None d = d"
| "str_or (Some s) d = (if s = [] then d else s)"

definition map_pymupdf_field_type :: "string \<Rightarrow> string" where
  "map_pymupdf_field_type field_type =
     (case map_of
        [(''Text'', ''text''),
         (''CheckBox'', ''checkbox''),
         (''RadioButton'', ''radio''),
         (''ComboBox'', ''dropdown''),
         (''ListBox'', ''list''),
         (''Signature'', ''signature'')] field_type of
        Some t \<Rightarrow> t
      | None \<Rightarrow> ''text'')"

text \<open>
  The body of the per-widget \<open>try\<close>; \<open>n\<close> is \<open>len(annotations)\<close>. Only the four
  \<open>int(...)\<close> conversions can raise.
\<close>

definition extract_widget :: "nat \<Rightarrow> widget \<Rightarrow> error + Annotation" where
  "extract_widget n w =
     (let fname = str_or (field_name w) (''field_'' @ string_of_nat n);
          ftype = str_or (field_type_string w) [];
          fvalue = str_or (field_value w) [];
          flabel = field_label w;
          r = rect w
      in case py_int (x0 r) of Inl e \<Rightarrow> Inl e | Inr x \<Rightarrow>
         (case py_int (y0 r) of Inl e \<Rightarrow> Inl e | Inr y \<Rightarrow>
         (case py_int (float_sub (x1 r) (x0 r)) of Inl e \<Rightarrow> Inl e | Inr wd \<Rightarrow>
         (case py_int (float_sub (y1 r) (y0 r)) of Inl e \<Rightarrow> Inl e | Inr ht \<Rightarrow>
            Inr \<lparr>ann_id = fname,
                 ann_type = map_pymupdf_field_type ftype,
                 ann_position =
                   \<lparr>pos_x = JInt x, pos_y = JInt y, pos_width = JInt wd,
                    pos_height = JInt ht, pos_unit = JStr ''pt''\<rparr>,
                 ann_formatting =
                   \<lparr>font_size = JInt 8, font_family = JStr ''Arial'',
                    alignment = JStr ''left'', max_length = JInt 100,
                    pattern = JStr [], required = JBool False\<rparr>,
                 data_reference = \<lparr>dr_path = fname, dr_default_value = fvalue\<rparr>,
                 ann_label = flabel\<rparr>))))"

text \<open>The widget loop of one page: a widget that raises is skipped.\<close>

fun walk_widgets :: "widget list \<Rightarrow> Annotation list \<Rightarrow> Annotation list" where
  "walk_widgets [] anns = anns"
| "walk_widgets (w # ws) anns =
     (case extract_widget (length anns) w of
        Inl e \<Rightarrow> walk_widgets ws anns
      | Inr a \<Rightarrow> walk_widgets ws (anns @ [a]))"

text \<open>
  The page loop over \<open>range(len(doc))\<close>; the accumulator is \<open>self.pages\<close>. A page
  that cannot be loaded raises out of the loop, with the pages appended so far kept.
\<close>

fun walk_pages :: "document \<Rightarrow> nat list \<Rightarrow> Pages list \<Rightarrow> error option \<times> Pages list" where
  "walk_pages d [] acc = (None, acc)"
| "walk_pages d (page_num # rest) acc =
     (case doc_getitem d (int page_num) of
        Inl e \<Rightarrow> (Some e, acc)
      | Inr (k, ws) \<Rightarrow>
          (let anns = walk_widgets ws []
           in walk_pages d rest
                (if anns \<noteq> []
                 then acc @ [\<lparr>page_number = int page_num + 1, annotations = anns\<rparr>]
                 else acc)))"

text \<open>
  \<open>__read_pdf\<close>. The \<open>except\<close> clause prints and re-raises: it closes nothing, so an
  error in the walk leaves \<open>self.doc\<close> set to the open document.
\<close>

definition read_pdf :: "session \<Rightarrow> (error + unit) \<times> session" where
  "read_pdf s =
     (case open_document s of
        (Inl e, s1) \<Rightarrow> (Inl e, s1)
      | (Inr d, s1) \<Rightarrow>
          (let s2 = s1\<lparr>doc := Some d\<rparr>
           in case doc_len d of
                Inl e \<Rightarrow> (Inl e, s2)
              | Inr n \<Rightarrow>
                  (case walk_pages d [0..<n] (pages s2) of
                     (Some e, pgs) \<Rightarrow> (Inl e, s2\<lparr>pages := pgs\<rparr>)
                   | (None, pgs) \<Rightarrow>
                       (case doc_close d of
                          Inl e \<Rightarrow> (Inl e, s2\<lparr>pages := pgs\<rparr>)
                        | Inr d' \<Rightarrow>
                            (Inr (),
                             s2\<lparr>pages := pgs, doc := None,
                                engine_log := engine_log s2 @ [Closed]\<rparr>)))))"

text \<open>\<open>AnnotationForm.__init__\<close>: the attributes are set, then the PDF is read.\<close>

definition AnnotationForm_init ::
  "world \<Rightarrow> string \<Rightarrow> string \<Rightarrow> int \<Rightarrow> string \<Rightarrow> (error + unit) \<times> session" where
  "AnnotationForm_init w path nm yr ver =
     read_pdf
       \<lparr>pdf_files = pdf_files w, json_files = json_files w,
        widget_update = widget_update w, writable = writable w,
        engine_log = engine_log w,
        pdf_path = path, name = nm, year = yr, version = ver,
        doc = None, pages = []\<rparr>"

section \<open>Export\<close>

definition json_of_label :: "string option \<Rightarrow> json" where
  "json_of_label l = (case l of None \<Rightarrow> JNull | Some t \<Rightarrow> JStr t)"

definition ann_data :: "Annotation \<Rightarrow> json" where
  "ann_data ann =
     JObj
       [(''id'', JStr (ann_id ann)),
        (''type'', JStr (ann_type ann)),
        (''label'', json_of_label (ann_label ann)),
        (''position'',
           JObj [(''x'', pos_x (ann_position ann)),
                 (''y'', pos_y (ann_position ann)),
                 (''width'', pos_width (ann_position ann)),
                 (''height'', pos_height (ann_position ann)),
                 (''unit'', pos_unit (ann_position ann))]),
        (''formatting'',
           JObj [(''font_size'', font_size (ann_formatting ann)),
                 (''font_family'', font_family (ann_formatting ann)),
                 (''alignment'', alignment (ann_formatting ann)),
                 (''max_length'', max_length (ann_formatting ann)),
                 (''pattern'', pattern (ann_formatting ann)),
                 (''required'', required (ann_formatting ann))]),
        (''data_reference'',
           JObj [(''path'', JStr (dr_path (data_reference ann))),
                 (''default_value'', JStr (dr_default_value (data_reference ann)))])]"

definition page_data :: "Pages \<Rightarrow> json" where
  "page_data page =
     JObj [(''page_number'', JInt (page_number page)),
           (''annotations'', JList (map ann_data (annotations page)))]"

text \<open>
  \<open>export_to_json\<close>: the value handed to \<open>json.dumps\<close>. The text it is printed as,
  and \<open>json.load\<close> reading that text back to the same value, are the standard
  library's.
\<close>

definition export_to_json :: "session \<Rightarrow> json" where
  "export_to_json s =
     JObj
       [(''pdf_info'',
           JObj [(''name'', JStr (name s)),
                 (''year'', JInt (year s)),
                 (''version'', JStr (version s)),
                 (''path'', JStr (pdf_path s))]),
        (''pages'', JList (map page_data (pages s)))]"

section \<open>The update payload\<close>

definition position_fields :: "string list" where
  "position_fields = [''x'', ''y'', ''width'', ''height'', ''unit'']"

definition formatting_fields :: "string list" where
  "formatting_fields =
     [''font_size'', ''font_family'', ''alignment'', ''max_length'', ''pattern'', ''required'']"

text \<open>
  \<open>Position(**pos)\<close>: the dataclass has no defaults, so every field must be a key, and
  a key that is no field is refused too; so is a value that is no mapping. The field
  values are stored as they come (a dataclass checks no types).
\<close>

definition make_Position :: "json \<Rightarrow> error + Position" where
  "make_Position pos =
     (case pos of
        JObj kv \<Rightarrow>
          (if list_all (\<lambda>k. k \<in> set (map fst kv)) position_fields \<and>
              list_all (\<lambda>k. k \<in> set position_fields) (map fst kv)
           then Inr \<lparr>pos_x = dict_get kv ''x'', pos_y = dict_get kv ''y'',
                     pos_width = dict_get kv ''width'', pos_height = dict_get kv ''height'',
                     pos_unit = dict_get kv ''unit''\<rparr>
           else Inl TypeError)
      | _ \<Rightarrow> Inl TypeError)"

text \<open>\<open>Formatting(**fmt)\<close>: every field defaults to None; a key that is no field is refused.\<close>

definition make_Formatting :: "json \<Rightarrow> error + Formatting" where
  "make_Formatting fmt =
     (case fmt of
        JObj kv \<Rightarrow>
          (if list_all (\<lambda>k. k \<in> set formatting_fields) (map fst kv)
           then Inr \<lparr>font_size = dict_get kv ''font_size'',
                     font_family = dict_get kv ''font_family'',
                     alignment = dict_get kv ''alignment'',
                     max_length = dict_get kv ''max_length'',
                     pattern = dict_get kv ''pattern'',
                     required = dict_get kv ''required''\<rparr>
           else Inl TypeError)
      | _ \<Rightarrow> Inl TypeError)"

text \<open>\<open>UpdateField.from_dict\<close>.\<close>

definition from_dict :: "(string \<times> json) list \<Rightarrow> error + UpdateField" where
  "from_dict data =
     (let pos = dict_get data ''position'';
          fmt = dict_get data ''formatting''
      in case (if truthy pos then map_sum id Some (make_Position pos) else Inr None) of
           Inl e \<Rightarrow> Inl e
         | Inr p \<Rightarrow>
             (case (if truthy fmt then map_sum id Some (make_Formatting fmt) else Inr None) of
                Inl e \<Rightarrow> Inl e
              | Inr f \<Rightarrow>
                  Inr \<lparr>uf_default_value = dict_get data ''default_value'',
                       uf_label = dict_get data ''label'',
                       uf_position = p,
                       uf_formatting = f\<rparr>))"

text \<open>The parameter \<open>field_value: Union[UpdateField, dict]\<close>.\<close>

datatype field_value_arg = AsUpdateField UpdateField | AsDict "(string \<times> json) list"

text \<open>\<open>if isinstance(field_value, dict): field_value = UpdateField.from_dict(field_value)\<close>\<close>

fun normalize_field_value :: "field_value_arg \<Rightarrow> error + UpdateField" where
  "normalize_field_value (AsUpdateField u) = Inr u"
| "normalize_field_value (AsDict data) = from_dict data"

section \<open>Field update\<close>

text \<open>First widget of the page, in widget order, that satisfies the test.\<close>

fun find_first :: "('a \<Rightarrow> bool) \<Rightarrow> 'a list \<Rightarrow> nat option" where
  "find_first P [] = None"
| "find_first P (x # xs) = (if P x then Some 0 else map_option Suc (find_first P xs))"

definition find_widget_by_annotation_id :: "widget list \<Rightarrow> string \<Rightarrow> nat option" where
  "find_widget_by_annotation_id ws annotation_id =
     find_first (\<lambda>w. field_name w = Some annotation_id) ws"

definition find_widget_by_label :: "widget list \<Rightarrow> string \<Rightarrow> nat option" where
  "find_widget_by_label ws label = find_first (\<lambda>w. field_label w = Some label) ws"

text \<open>
  The four steps on the widget found, \<open>upd\<close> being the engine's
  \<open>widget.update()\<close>. The engine's attributes are typed: a string for the value, the
  label and the font, a number for the font size and the rectangle's coordinates. A
  truthy payload value of another type is an error of the step, raised before anything
  of the step is committed.
\<close>

definition step_value :: "(widget \<Rightarrow> error + widget) \<Rightarrow> UpdateField \<Rightarrow> widget \<Rightarrow> error + widget" where
  "step_value upd u w =
     (if truthy (uf_default_value u)
      then (case uf_default_value u of
              JStr v \<Rightarrow> upd (w\<lparr>field_value := Some v\<rparr>)
            | _ \<Rightarrow> Inl TypeError)
      else Inr w)"

text \<open>\<open>fitz.Rect(pos.x, pos.y, pos.x + pos.width, pos.y + pos.height)\<close>\<close>

definition new_rect :: "Position \<Rightarrow> error + Rect" where
  "new_rect pos =
     (case (num_of (pos_x pos), num_of (pos_y pos),
            num_of (pos_width pos), num_of (pos_height pos)) of
        (Some x, Some y, Some wd, Some ht) \<Rightarrow>
          Inr \<lparr>x0 = Finite x, y0 = Finite y, x1 = Finite (x + wd), y1 = Finite (y + ht)\<rparr>
      | _ \<Rightarrow> Inl TypeError)"

definition step_position :: "(widget \<Rightarrow> error + widget) \<Rightarrow> UpdateField \<Rightarrow> widget \<Rightarrow> error + widget" where
  "step_position upd u w =
     (case uf_position u of
        None \<Rightarrow> Inr w
      | Some pos \<Rightarrow>
          (case new_rect pos of
             Inl e \<Rightarrow> Inl e
           | Inr r \<Rightarrow> upd (w\<lparr>rect := r\<rparr>)))"

definition set_text_fontsize :: "json \<Rightarrow> widget \<Rightarrow> error + widget" where
  "set_text_fontsize v w =
     (case num_of v of None \<Rightarrow> Inl TypeError | Some q \<Rightarrow> Inr (w\<lparr>text_fontsize := q\<rparr>))"

definition set_text_font :: "json \<Rightarrow> widget \<Rightarrow> error + widget" where
  "set_text_font v w =
     (case v of JStr f \<Rightarrow> Inr (w\<lparr>text_font := Some f\<rparr>) | _ \<Rightarrow> Inl TypeError)"

definition step_formatting :: "(widget \<Rightarrow> error + widget) \<Rightarrow> UpdateField \<Rightarrow> widget \<Rightarrow> error + widget" where
  "step_formatting upd u w =
     (case uf_formatting u of
        None \<Rightarrow> Inr w
      | Some fmt \<Rightarrow>
          (case (if truthy (font_size fmt) then set_text_fontsize (font_size fmt) w
                 else Inr w) of
             Inl e \<Rightarrow> Inl e
           | Inr w1 \<Rightarrow>
               (case (if truthy (font_family fmt) then set_text_font (font_family fmt) w1
                      else Inr w1) of
                  Inl e \<Rightarrow> Inl e
                | Inr w2 \<Rightarrow> upd w2)))"

definition step_label :: "(widget \<Rightarrow> error + widget) \<Rightarrow> UpdateField \<Rightarrow> widget \<Rightarrow> error + widget" where
  "step_label upd u w =
     (if truthy (uf_label u)
      then (case uf_label u of
              JStr l \<Rightarrow> upd (w\<lparr>field_label := Some l\<rparr>)
            | _ \<Rightarrow> Inl TypeError)
      else Inr w)"

text \<open>
  The steps in the order of the source. There is no rollback: the result carries the
  widget as last committed, with the error of the step that raised, if one did.
\<close>

definition apply_update ::
  "(widget \<Rightarrow> error + widget) \<Rightarrow> UpdateField \<Rightarrow> widget \<Rightarrow> error option \<times> widget" where
  "apply_update upd u w =
     (case step_value upd u w of
        Inl e \<Rightarrow> (Some e, w)
      | Inr w1 \<Rightarrow>
          (case step_position upd u w1 of
             Inl e \<Rightarrow> (Some e, w1)
           | Inr w2 \<Rightarrow>
               (case step_formatting upd u w2 of
                  Inl e \<Rightarrow> (Some e, w2)
                | Inr w3 \<Rightarrow>
                    (case step_label upd u w3 of
                       Inl e \<Rightarrow> (Some e, w3)
                     | Inr w4 \<Rightarrow> (None, w4)))))"

text \<open>
  \<open>if not self.doc: doc = fitz.open(self.pdf_path); self.doc = doc\<close>, then
  \<open>doc = self.doc\<close>. The truth value of a document object is that of its \<open>len\<close>:
  the engine raises on a closed document, and a document without pages is falsy. (Were
  a closed document merely truthy, the next line, \<open>doc[page_number - 1]\<close>, would
  raise the same error: a closed document that is not None is never replaced.)
\<close>

definition ensure_open :: "session \<Rightarrow> (error + document) \<times> session" where
  "ensure_open s =
     (case doc s of
        Some d \<Rightarrow>
          (case doc_len d of
             Inl e \<Rightarrow> (Inl e, s)
           | Inr n \<Rightarrow>
               (if n \<noteq> 0 then (Inr d, s)
                else (case open_document s of
                        (Inl e, s1) \<Rightarrow> (Inl e, s1)
                      | (Inr d1, s1) \<Rightarrow> (Inr d1, s1\<lparr>doc := Some d1\<rparr>))))
      | None \<Rightarrow>
          (case open_document s of
             (Inl e, s1) \<Rightarrow> (Inl e, s1)
           | (Inr d1, s1) \<Rightarrow> (Inr d1, s1\<lparr>doc := Some d1\<rparr>)))"

text \<open>\<open>page_number - 1\<close> as a page index: an int (a bool is one), or a TypeError.\<close>

fun page_index :: "json \<Rightarrow> error + int" where
  "page_index (JInt n) = Inr (n - 1)"
| "page_index (JBool b) = Inr ((if b then 1 else 0) - 1)"
| "page_index _ = Inl TypeError"

text \<open>
  The body shared, line for line, by the two update methods; they differ in the lookup
  and in the message of the not-found error.
\<close>

definition update_field ::
  "(widget list \<Rightarrow> nat option) \<Rightarrow> error \<Rightarrow> session \<Rightarrow> json \<Rightarrow> field_value_arg
   \<Rightarrow> (error + bool) \<times> session" where
  "update_field lookup not_found s page_no field_val =
     (case ensure_open s of
        (Inl e, s1) \<Rightarrow> (Inl e, s1)
      | (Inr d, s1) \<Rightarrow>
          (case page_index page_no of
             Inl e \<Rightarrow> (Inl e, s1)
           | Inr i \<Rightarrow>
               (case doc_getitem d i of
                  Inl e \<Rightarrow> (Inl e, s1)
                | Inr (k, ws) \<Rightarrow>
                    (case lookup ws of
                       None \<Rightarrow> (Inl not_found, s1)
                     | Some j \<Rightarrow>
                         (case normalize_field_value field_val of
                            Inl e \<Rightarrow> (Inl e, s1)
                          | Inr u \<Rightarrow>
                              (case apply_update (widget_update s1) u (ws ! j) of
                                 (Some e, w') \<Rightarrow>
                                   (Inl e, s1\<lparr>doc := Some (put_widget d k j ws w')\<rparr>)
                               | (None, w') \<Rightarrow>
                                   (Inr True, s1\<lparr>doc := Some (put_widget d k j ws w')\<rparr>)))))))"

definition update_field_by_anotation_id_and_page_number ::
  "session \<Rightarrow> string \<Rightarrow> json \<Rightarrow> field_value_arg \<Rightarrow> (error + bool) \<times> session" where
  "update_field_by_anotation_id_and_page_number s annotation_id page_no field_val =
     update_field (\<lambda>ws. find_widget_by_annotation_id ws annotation_id)
       (WidgetNotFound annotation_id) s page_no field_val"

definition update_field_by_label_and_page_number ::
  "session \<Rightarrow> string \<Rightarrow> json \<Rightarrow> field_value_arg \<Rightarrow> (error + bool) \<times> session" where
  "update_field_by_label_and_page_number s label page_no field_val =
     update_field (\<lambda>ws. find_widget_by_label ws label)
       (WidgetNotFound label) s page_no field_val"

section \<open>Bulk update\<close>

text \<open>The dict literal \<open>update_body\<close>, its values evaluated in order.\<close>

definition update_body :: "json \<Rightarrow> error + (string \<times> json) list" where
  "update_body new_ann =
     (case py_get new_ann ''data_reference'' of
        Inl e \<Rightarrow> Inl e
      | Inr dr \<Rightarrow>
          (case py_get dr ''default_value'' of
             Inl e \<Rightarrow> Inl e
           | Inr dv \<Rightarrow>
               (case py_get new_ann ''label'' of
                  Inl e \<Rightarrow> Inl e
                | Inr lb \<Rightarrow>
                    (case py_get new_ann ''position'' of
                       Inl e \<Rightarrow> Inl e
                     | Inr ps \<Rightarrow>
                         (case py_get new_ann ''formatting'' of
                            Inl e \<Rightarrow> Inl e
                          | Inr fm \<Rightarrow>
                              Inr [(''default_value'', dv), (''label'', lb),
                                   (''position'', ps), (''formatting'', fm)])))))"

text \<open>\<open>for new_ann in page.get("annotations")\<close>, for one live annotation id.\<close>

fun scan_new_anns :: "session \<Rightarrow> string \<Rightarrow> json \<Rightarrow> json list \<Rightarrow> (error + unit) \<times> session" where
  "scan_new_anns s aid page [] = (Inr (), s)"
| "scan_new_anns s aid page (new_ann # rest) =
     (case py_get new_ann ''id'' of
        Inl e \<Rightarrow> (Inl e, s)
      | Inr nid \<Rightarrow>
          (if JStr aid = nid
           then (case update_body new_ann of
                   Inl e \<Rightarrow> (Inl e, s)
                 | Inr body \<Rightarrow>
                     (case py_get page ''page_number'' of
                        Inl e \<Rightarrow> (Inl e, s)
                      | Inr pn \<Rightarrow>
                          (case update_field_by_anotation_id_and_page_number s aid pn
                                  (AsDict body) of
                             (Inl e, s1) \<Rightarrow> (Inl e, s1)
                           | (Inr ok, s1) \<Rightarrow> scan_new_anns s1 aid page rest)))
           else scan_new_anns s aid page rest))"

text \<open>\<open>for page in updated_annotations_json.get("pages")\<close>, for one live annotation id.\<close>

fun scan_new_pages :: "session \<Rightarrow> string \<Rightarrow> json list \<Rightarrow> (error + unit) \<times> session" where
  "scan_new_pages s aid [] = (Inr (), s)"
| "scan_new_pages s aid (page # rest) =
     (case py_get page ''annotations'' of
        Inl e \<Rightarrow> (Inl e, s)
      | Inr anns \<Rightarrow>
          (case py_iter anns of
             Inl e \<Rightarrow> (Inl e, s)
           | Inr new_anns \<Rightarrow>
               (case scan_new_anns s aid page new_anns of
                  (Inl e, s1) \<Rightarrow> (Inl e, s1)
                | (Inr u, s1) \<Rightarrow> scan_new_pages s1 aid rest)))"

text \<open>\<open>for ann in page.annotations\<close> of one live page.\<close>

fun scan_annotations :: "session \<Rightarrow> json \<Rightarrow> Annotation list \<Rightarrow> (error + unit) \<times> session" where
  "scan_annotations s updated [] = (Inr (), s)"
| "scan_annotations s updated (ann # rest) =
     (case py_get updated ''pages'' of
        Inl e \<Rightarrow> (Inl e, s)
      | Inr pv \<Rightarrow>
          (case py_iter pv of
             Inl e \<Rightarrow> (Inl e, s)
           | Inr new_pages \<Rightarrow>
               (case scan_new_pages s (ann_id ann) new_pages of
                  (Inl e, s1) \<Rightarrow> (Inl e, s1)
                | (Inr u, s1) \<Rightarrow> scan_annotations s1 updated rest)))"

text \<open>
  \<open>for page in self.pages\<close>. The inner loop rebinds the name \<open>page\<close>, which does not
  disturb the iterators already running. No update assigns \<open>self.pages\<close>, so the list
  walked is the one the call starts with.
\<close>

fun scan_pages :: "session \<Rightarrow> json \<Rightarrow> Pages list \<Rightarrow> (error + unit) \<times> session" where
  "scan_pages s updated [] = (Inr (), s)"
| "scan_pages s updated (page # rest) =
     (case scan_annotations s updated (annotations page) of
        (Inl e, s1) \<Rightarrow> (Inl e, s1)
      | (Inr u, s1) \<Rightarrow> scan_pages s1 updated rest)"

definition load_updated_annotaion_json :: "session \<Rightarrow> string \<Rightarrow> (error + bool) \<times> session" where
  "load_updated_annotaion_json s json_path =
     (case json_files s json_path of
        None \<Rightarrow> (Inl JsonReadError, s)
      | Some updated \<Rightarrow>
          (case py_get updated ''pages'' of
             Inl e \<Rightarrow> (Inl e, s)
           | Inr pv \<Rightarrow>
               (if truthy pv
                then (case scan_pages s updated (pages s) of
                        (Inl e, s1) \<Rightarrow> (Inl e, s1)
                      | (Inr u, s1) \<Rightarrow> (Inr True, s1))
                else (Inl InvalidJson, s))))"

section \<open>Persistence\<close>

text \<open>
  \<open>save_pdf\<close>. It closes the document and leaves \<open>self.doc\<close> set to the closed
  object.
\<close>

definition save_pdf :: "session \<Rightarrow> string option \<Rightarrow> (error + unit) \<times> session" where
  "save_pdf s output_path =
     (case doc s of
        None \<Rightarrow> (Inr (), s)
      | Some d \<Rightarrow>
          (case doc_save s d (str_or output_path ''output.pdf'') of
             Inl e \<Rightarrow> (Inl e, s)
           | Inr s1 \<Rightarrow>
               (case doc_close d of
                  Inl e \<Rightarrow> (Inl e, s1)
                | Inr d' \<Rightarrow>
                    (Inr (), s1\<lparr>doc := Some d', engine_log := engine_log s1 @ [Closed]\<rparr>))))"

section \<open>Example documents\<close>

text \<open>A one-page form with one text field, and the same form followed by a page the
  engine cannot load.\<close>

definition example_widget :: widget where
  "example_widget =
     \<lparr>field_name = Some ''a'', field_type_string = Some ''Text'',
      field_value = Some ''v'', field_label = Some ''lab'',
      rect = \<lparr>x0 = Finite 10, y0 = Finite 20, x1 = Finite 30, y1 = Finite 45\<rparr>,
      text_fontsize = 12, text_font = Some ''Helv''\<rparr>"

definition example_world :: world where
  "example_world =
     \<lparr>pdf_files = [''f.pdf'' \<mapsto> [Page [example_widget]]],
      json_files = Map.empty,
      widget_update = pymupdf_update,
      writable = (\<lambda>p. True),
      engine_log = []\<rparr>"

definition damaged_world :: world where
  "damaged_world =
     example_world\<lparr>pdf_files := [''f.pdf'' \<mapsto> [Page [example_widget], DamagedPage]]\<rparr>"

definition example_annotation :: Annotation where
  "example_annotation =
     \<lparr>ann_id = ''a'', ann_type = ''text'',
      ann_position =
        \<lparr>pos_x = JInt 10, pos_y = JInt 20, pos_width = JInt 20,
         pos_height = JInt 25, pos_unit = JStr ''pt''\<rparr>,
      ann_formatting =
        \<lparr>font_size = JInt 8, font_family = JStr ''Arial'',
         alignment = JStr ''left'', max_length = JInt 100,
         pattern = JStr [], required = JBool False\<rparr>,
      data_reference = \<lparr>dr_path = ''a'', dr_default_value = ''v''\<rparr>,
      ann_label = Some ''lab''\<rparr>"

text \<open>The object \<open>AnnotationForm("f.pdf", "form", 2024, "1")\<close> once constructed.\<close>

definition example_form :: session where
  "example_form =
     \<lparr>pdf_files = [''f.pdf'' \<mapsto> [Page [example_widget]]],
      json_files = Map.empty,
      widget_update = pymupdf_update,
      writable = (\<lambda>p. True),
      engine_log = [Opened ''f.pdf'', Closed],
      pdf_path = ''f.pdf'', name = ''form'', year = 2024, version = ''1'',
      doc = None,
      pages = [\<lparr>page_number = 1, annotations = [example_annotation]\<rparr>]\<rparr>"

text \<open>The same object after one update and a save: \<open>self.doc\<close> is the closed document.\<close>

definition saved_form :: session where
  "saved_form =
     snd (save_pdf
            (snd (update_field_by_anotation_id_and_page_number example_form ''a'' (JInt 1)
                    (AsDict [(''default_value'', JStr ''Feb'')])))
            None)"


section \<open>Notions the properties are stated with\<close>

text \<open>A sequence of update calls, each by id or by label; a caller may catch the error
  of one call and go on with the next.\<close>

datatype update_call =
    ById string json field_value_arg
  | ByLabel string json field_value_arg

fun run_update :: "session \<Rightarrow> update_call \<Rightarrow> (error + bool) \<times> session" where
  "run_update s (ById annotation_id page_no field_val) =
     update_field_by_anotation_id_and_page_number s annotation_id page_no field_val"
| "run_update s (ByLabel label page_no field_val) =
     update_field_by_label_and_page_number s label page_no field_val"

fun run_updates :: "session \<Rightarrow> update_call list \<Rightarrow> session" where
  "run_updates s [] = s"
| "run_updates s (c # cs) = run_updates (snd (run_update s c)) cs"




text \<open>A widget is successfully extracted when the body of the per-widget \<open>try\<close> does
  not raise (the count of annotations collected so far plays no part in that).\<close>

definition extractable :: "widget \<Rightarrow> bool" where
  "extractable w = (\<not> isl (extract_widget 0 w))"

text \<open>A form of three pages: a field, no field, and a page with an unnamed field after
  a field whose rectangle has a NaN coordinate.\<close>

definition nan_widget :: widget where
  "nan_widget = example_widget\<lparr>field_name := Some ''b'', rect := (rect example_widget)\<lparr>x1 := NaN\<rparr>\<rparr>"

definition unnamed_widget :: widget where
  "unnamed_widget = example_widget\<lparr>field_name := None, field_type_string := Some ''CheckBox''\<rparr>"

definition three_page_world :: world where
  "three_page_world =
     example_world
       \<lparr>pdf_files := [''g.pdf'' \<mapsto> map Page [[example_widget], [], [nan_widget, unnamed_widget]]]\<rparr>"

section \<open>The bulk update, in the words of its contract\<close>

text \<open>Reading an imported tree that conforms to the export schema: the member of an
  object, the items of a list.\<close>

definition member :: "json \<Rightarrow> string \<Rightarrow> json" where
  "member v k = (case v of JObj kv \<Rightarrow> dict_get kv k | _ \<Rightarrow> JNull)"

definition items :: "json \<Rightarrow> json list" where
  "items v = (case v of JList xs \<Rightarrow> xs | _ \<Rightarrow> [])"

definition is_object :: "json \<Rightarrow> bool" where
  "is_object v = (case v of JObj kv \<Rightarrow> True | _ \<Rightarrow> False)"

text \<open>An imported page: an object whose \<open>annotations\<close> is a list of objects.\<close>

definition well_formed_page :: "json \<Rightarrow> bool" where
  "well_formed_page p =
     (case p of
        JObj kv \<Rightarrow>
          (case dict_get kv ''annotations'' of
             JList anns \<Rightarrow> list_all is_object anns
           | _ \<Rightarrow> False)
      | _ \<Rightarrow> False)"

text \<open>An imported document: an object whose \<open>pages\<close> is a non-empty list of pages.\<close>

definition well_formed_import :: "json \<Rightarrow> bool" where
  "well_formed_import updated =
     (case updated of
        JObj kv \<Rightarrow>
          (case dict_get kv ''pages'' of
             JList ps \<Rightarrow> ps \<noteq> [] \<and> list_all well_formed_page ps
           | _ \<Rightarrow> False)
      | _ \<Rightarrow> False)"

text \<open>
  The single-field updates the contract asks for, in order: for every live annotation,
  every annotation anywhere in the imported tree with the same id, to be applied under
  the page number of the imported page that holds it.
\<close>

definition planned_updates :: "Pages list \<Rightarrow> json \<Rightarrow> (string \<times> json \<times> json) list" where
  "planned_updates live updated =
     [(ann_id ann, member new_page ''page_number'', new_ann).
        page \<leftarrow> live, ann \<leftarrow> annotations page,
        new_page \<leftarrow> items (member updated ''pages''),
        new_ann \<leftarrow> items (member new_page ''annotations''),
        member new_ann ''id'' = JStr (ann_id ann)]"

text \<open>Applying them by id, one after the other, up to the first that raises.\<close>

fun apply_planned :: "session \<Rightarrow> (string \<times> json \<times> json) list \<Rightarrow> (error + bool) \<times> session" where
  "apply_planned s [] = (Inr True, s)"
| "apply_planned s ((aid, page_no, new_ann) # rest) =
     (case update_body new_ann of
        Inl e \<Rightarrow> (Inl e, s)
      | Inr body \<Rightarrow>
          (case update_field_by_anotation_id_and_page_number s aid page_no (AsDict body) of
             (Inl e, s1) \<Rightarrow> (Inl e, s1)
           | (Inr ok, s1) \<Rightarrow> apply_planned s1 rest))"

text \<open>The ids of the live tree and of an imported tree.\<close>

definition live_ids :: "session \<Rightarrow> string list" where
  "live_ids s = [ann_id ann. page \<leftarrow> pages s, ann \<leftarrow> annotations page]"

definition imported_ids :: "json \<Rightarrow> json list" where
  "imported_ids updated =
     [member new_ann ''id''.
        new_page \<leftarrow> items (member updated ''pages''),
        new_ann \<leftarrow> items (member new_page ''annotations'')]"

text \<open>\<open>return True\<close> after a loop that did not raise.\<close>

definition then_true :: "(error + unit) \<times> session \<Rightarrow> (error + bool) \<times> session" where
  "then_true r = (case r of (Inl e, s1) \<Rightarrow> (Inl e, s1) | (Inr u, s1) \<Rightarrow> (Inr True, s1))"

section \<open>Example imports\<close>

text \<open>A form of two pages, each with a field named \<open>a\<close>, once constructed; and an
  import that lists a field \<open>a\<close> under page 2 only.\<close>

definition two_page_form :: session where
  "two_page_form =
     \<lparr>pdf_files =
        [''h.pdf'' \<mapsto>
           [Page [example_widget], Page [example_widget\<lparr>field_value := Some ''w''\<rparr>]]],
      json_files = Map.empty,
      widget_update = pymupdf_update,
      writable = (\<lambda>p. True),
      engine_log = [Opened ''h.pdf'', Closed],
      pdf_path = ''h.pdf'', name = ''form'', year = 2024, version = ''1'',
      doc = None,
      pages =
        [\<lparr>page_number = 1, annotations = [example_annotation]\<rparr>,
         \<lparr>page_number = 2,
          annotations =
            [example_annotation
               \<lparr>data_reference := \<lparr>dr_path = ''a'', dr_default_value = ''w''\<rparr>\<rparr>]\<rparr>]\<rparr>"

definition moved_annotation :: json where
  "moved_annotation =
     JObj [(''id'', JStr ''a''), (''label'', JStr ''moved''),
           (''data_reference'', JObj [(''default_value'', JStr [])])]"

definition moved_import :: json where
  "moved_import =
     JObj [(''pages'',
            JList [JObj [(''page_number'', JInt 2),
                         (''annotations'', JList [moved_annotation])]])]"

text \<open>Imports for the one-page form: one whose only id is unknown to the form, one
  without a \<open>pages\<close> key, and one whose \<open>pages\<close> list is empty.\<close>

definition stranger_import :: json where
  "stranger_import =
     JObj [(''pages'',
            JList [JObj [(''page_number'', JInt 1),
                         (''annotations'', JList [JObj [(''id'', JStr ''z'')]])]])]"

definition import_form :: session where
  "import_form =
     example_form
       \<lparr>json_files :=
          [''s'' \<mapsto> stranger_import,
           ''n'' \<mapsto> JObj [(''pdf_info'', JObj [])],
           ''e'' \<mapsto> JObj [(''pages'', JList [])]]\<rparr>"

section \<open>The round trip\<close>

text \<open>
  A rectangle the round trip can give back as it was: its coordinates are integers (of
  a size that single and double precision hold exactly), so that truncating them and
  adding the truncated width and height loses nothing, and it is not empty, so that the
  engine accepts it.
\<close>

fun whole :: "pyfloat \<Rightarrow> bool" where
  "whole (Finite q) = (q \<in> \<int> \<and> \<bar>q\<bar> \<le> 16777216)"
| "whole _ = False"

definition integer_rect :: "Rect \<Rightarrow> bool" where
  "integer_rect r =
     (whole (x0 r) \<and> whole (y0 r) \<and> whole (x1 r) \<and> whole (y1 r) \<and> \<not> rect_is_empty r)"

text \<open>
  What exporting and importing back does to such a widget on PyMuPDF: it gets the font
  size of the formatting that extraction writes into every annotation, and the font the
  engine puts in the place of that formatting's font family.
\<close>

definition round_trip_widget :: "widget \<Rightarrow> widget" where
  "round_trip_widget w = w\<lparr>text_fontsize := 8, text_font := Some ''Helv''\<rparr>"

text \<open>The session once an update has opened the document, holding the given widgets.\<close>

definition reopened :: "session \<Rightarrow> widget list list \<Rightarrow> session" where
  "reopened s wss =
     s\<lparr>engine_log := engine_log s @ [Opened (pdf_path s)],
       doc := Some \<lparr>is_closed = False, doc_pages = map Page wss\<rparr>\<rparr>"

text \<open>
  The round trip on a document of the given pages: the form is constructed, exported,
  and the export is imported back unmodified. The result of the import, and the pages
  of the document it leaves in \<open>self.doc\<close>.
\<close>

definition round_trip_form :: "pdf_page list \<Rightarrow> session" where
  "round_trip_form ps =
     (let s = snd (AnnotationForm_init (example_world\<lparr>pdf_files := [''f.pdf'' \<mapsto> ps]\<rparr>)
                     ''f.pdf'' ''form'' 2024 ''1'')
      in s\<lparr>json_files := [''j'' \<mapsto> export_to_json s]\<rparr>)"

definition round_trip_result :: "pdf_page list \<Rightarrow> (error + bool) \<times> pdf_page list option" where
  "round_trip_result ps =
     (case load_updated_annotaion_json (round_trip_form ps) ''j'' of
        (r, s) \<Rightarrow> (r, map_option doc_pages (doc s)))"

text \<open>Widgets the round trip does not give back: one whose rectangle has half-point
  coordinates, one whose rectangle is empty, and a second widget of the same name at
  another place.\<close>

definition half_point_widget :: widget where
  "half_point_widget =
     example_widget
       \<lparr>rect := \<lparr>x0 = Finite (21 / 2), y0 = Finite 20, x1 = Finite (61 / 2), y1 = Finite 45\<rparr>\<rparr>"

definition flat_widget :: widget where
  "flat_widget =
     example_widget
       \<lparr>rect := \<lparr>x0 = Finite 10, y0 = Finite 20, x1 = Finite 10, y1 = Finite 45\<rparr>\<rparr>"

definition twin_widget :: widget where
  "twin_widget =
     example_widget
       \<lparr>rect := \<lparr>x0 = Finite 50, y0 = Finite 20, x1 = Finite 70, y1 = Finite 45\<rparr>\<rparr>"

section \<open>Unfolding the model\<close>

lemma adjust_font_examples:
  "adjust_font (Some ''Helv'') = ''Helv''"
  "adjust_font (Some ''Cour'') = ''Cour''"
  "adjust_font (Some ''Arial'') = ''Helv''"
  by (simp_all add: adjust_font_def ascii_lower_def)

lemmas pymupdf_defs =
  pymupdf_update_def rect_is_empty_def rect_is_infinite_def adjust_font_examples

lemmas engine_defs =
  open_document_def doc_len_def doc_getitem_def doc_close_def doc_save_def put_widget_def
  pymupdf_defs

lemmas extract_defs =
  extract_widget_def map_pymupdf_field_type_def read_pdf_def AnnotationForm_init_def

lemmas payload_defs =
  from_dict_def make_Position_def make_Formatting_def position_fields_def
  formatting_fields_def dict_get_def

lemmas update_defs =
  update_field_def update_field_by_anotation_id_and_page_number_def
  update_field_by_label_and_page_number_def ensure_open_def apply_update_def step_value_def
  step_position_def step_formatting_def step_label_def new_rect_def set_text_fontsize_def
  set_text_font_def find_widget_by_annotation_id_def find_widget_by_label_def

lemmas example_defs =
  example_widget_def example_world_def example_annotation_def example_form_def

lemma example_form_constructed:
  "AnnotationForm_init example_world ''f.pdf'' ''form'' 2024 ''1'' = (Inr (), example_form)"
  by (simp add: example_defs engine_defs extract_defs Let_def)

lemma saved_form_eq:
  "saved_form =
     example_form
       \<lparr>pdf_files :=
          [''f.pdf'' \<mapsto> [Page [example_widget]],
           ''output.pdf'' \<mapsto> [Page [example_widget\<lparr>field_value := Some ''Feb''\<rparr>]]],
        engine_log :=
          [Opened ''f.pdf'', Closed, Opened ''f.pdf'', Saved ''output.pdf'', Closed],
        doc :=
          Some \<lparr>is_closed = True,
                doc_pages = [Page [example_widget\<lparr>field_value := Some ''Feb''\<rparr>]]\<rparr>\<rparr>"
  by (simp add: saved_form_def save_pdf_def example_defs engine_defs update_defs
      payload_defs Let_def)

section \<open>The document handle after a save\<close>

text \<open>
  While \<open>self.doc\<close> is None an update opens the document from \<open>pdf_path\<close> and a
  save does nothing. A closed document left in \<open>self.doc\<close> stops both.
\<close>

lemma update_opens_missing_handle:
  "doc s = None \<Longrightarrow> pdf_files s (pdf_path s) = Some ps \<Longrightarrow>
   ensure_open s =
     (Inr \<lparr>is_closed = False, doc_pages = ps\<rparr>,
      s\<lparr>engine_log := engine_log s @ [Opened (pdf_path s)],
        doc := Some \<lparr>is_closed = False, doc_pages = ps\<rparr>\<rparr>)"
  by (simp add: ensure_open_def open_document_def)

lemma save_pdf_without_handle: "doc s = None \<Longrightarrow> save_pdf s output_path = (Inr (), s)"
  by (simp add: save_pdf_def)

lemma closed_handle_stops_update_and_save:
  "doc s = Some d \<Longrightarrow> is_closed d \<Longrightarrow>
   update_field lookup not_found s page_no field_val = (Inl DocumentClosed, s) \<and>
   save_pdf s output_path = (Inl DocumentClosed, s)"
  by (simp add: update_field_def ensure_open_def doc_len_def save_pdf_def doc_save_def)

lemma save_pdf_leaves_closed_handle:
  "doc s = Some d \<Longrightarrow> save_pdf s output_path = (Inr (), s') \<Longrightarrow>
   doc s' = Some (d\<lparr>is_closed := True\<rparr>)"
  by (auto simp: save_pdf_def doc_save_def doc_close_def split: if_splits)

text \<open>
  C1. After construction, one update and a save, the handle is closed. A further
  update does not reopen the document from \<open>pdf_path\<close>: \<open>save_pdf\<close> left
  \<open>self.doc\<close> set to the closed object, whose truth value the engine refuses to give,
  so the call raises and the session is as it was.
\<close>

theorem update_after_save_raises:
  "update_field_by_anotation_id_and_page_number saved_form ''a'' (JInt 1)
     (AsDict [(''default_value'', JStr ''Mar'')])
   = (Inl DocumentClosed, saved_form)"
  by (simp add: saved_form_eq example_defs engine_defs update_defs)

text \<open>
  C2. In the same state a second \<open>save_pdf\<close> is not a no-op: \<open>self.doc\<close> is not
  None, so \<open>save\<close> is called on the closed document and the engine raises.
\<close>

theorem save_after_save_raises:
  "save_pdf saved_form None = (Inl DocumentClosed, saved_form)"
  by (simp add: saved_form_eq save_pdf_def example_defs engine_defs)

section \<open>Extraction and the document handle\<close>

lemma doc_getitem_nat:
  "\<not> is_closed d \<Longrightarrow> n < length (doc_pages d) \<Longrightarrow>
   doc_getitem d (int n) =
     (case doc_pages d ! n of DamagedPage \<Rightarrow> Inl PageLoadError | Page ws \<Rightarrow> Inr (n, ws))"
  by (auto simp: doc_getitem_def split: pdf_page.splits)

lemma walk_pages_fails_iff:
  "\<not> is_closed d \<Longrightarrow> list_all (\<lambda>n. n < length (doc_pages d)) ns \<Longrightarrow>
   (fst (walk_pages d ns acc) = None) = list_all (\<lambda>n. doc_pages d ! n \<noteq> DamagedPage) ns"
proof (induction ns arbitrary: acc)
  case Nil
  then show ?case by simp
next
  case (Cons n ns)
  then show ?case
    by (cases "doc_pages d ! n") (simp_all add: doc_getitem_nat Let_def)
qed

lemma all_pages_loadable:
  "list_all (\<lambda>n. ps ! n \<noteq> DamagedPage) [0..<length ps] = (DamagedPage \<notin> set ps)"
  by (auto simp: list_all_iff in_set_conv_nth)

text \<open>
  C3, against the claim. On a document whose second page cannot be loaded the walk
  raises out of the constructor, and the document opened for extraction is still open:
  \<open>self.doc\<close> holds it and the engine has seen no close.
\<close>

theorem walk_error_leaves_handle_open:
  "fst (AnnotationForm_init damaged_world ''f.pdf'' ''form'' 2024 ''1'') = Inl PageLoadError \<and>
   doc (snd (AnnotationForm_init damaged_world ''f.pdf'' ''form'' 2024 ''1'')) =
     Some \<lparr>is_closed = False, doc_pages = [Page [example_widget], DamagedPage]\<rparr> \<and>
   engine_log (snd (AnnotationForm_init damaged_world ''f.pdf'' ''form'' 2024 ''1'')) =
     [Opened ''f.pdf'']"
  by (simp add: damaged_world_def example_defs engine_defs extract_defs Let_def)

text \<open>
  C3, as the code has it. When \<open>__read_pdf\<close> returns, the document it opened has been
  closed and \<open>self.doc\<close> is None. When it raises, either the open failed and nothing
  changed, or the walk failed and the opened document is left open in \<open>self.doc\<close>.
  It raises exactly when the file cannot be opened or one of its pages cannot be loaded:
  a widget that raises is skipped and does not keep the document from being closed.
\<close>

theorem read_pdf_handle:
  "(case read_pdf s of
      (Inr u, s') \<Rightarrow>
        doc s' = None \<and> engine_log s' = engine_log s @ [Opened (pdf_path s), Closed]
    | (Inl e, s') \<Rightarrow>
        (case pdf_files s (pdf_path s) of
           None \<Rightarrow> s' = s
         | Some ps \<Rightarrow>
             doc s' = Some \<lparr>is_closed = False, doc_pages = ps\<rparr> \<and>
             engine_log s' = engine_log s @ [Opened (pdf_path s)]))
   \<and> isl (fst (read_pdf s)) =
       (case pdf_files s (pdf_path s) of None \<Rightarrow> True | Some ps \<Rightarrow> DamagedPage \<in> set ps)"
proof (cases "pdf_files s (pdf_path s)")
  case None
  then show ?thesis by (simp add: read_pdf_def open_document_def)
next
  case (Some ps)
  let ?d = "\<lparr>is_closed = False, doc_pages = ps\<rparr>"
  obtain r pgs where w: "walk_pages ?d [0..<length ps] (pages s) = (r, pgs)"
    by (cases "walk_pages ?d [0..<length ps] (pages s)")
  have "(fst (walk_pages ?d [0..<length ps] (pages s)) = None) = (DamagedPage \<notin> set ps)"
    using walk_pages_fails_iff[of ?d "[0..<length ps]" "pages s"] all_pages_loadable[of ps]
    by (simp add: list_all_iff)
  with w have r: "(r = None) = (DamagedPage \<notin> set ps)" by simp
  show ?thesis
    using Some w r
    by (cases r) (simp_all add: read_pdf_def open_document_def doc_len_def doc_close_def Let_def)
qed

section \<open>What an update can change\<close>

lemma ensure_open_frame:
  "snd (ensure_open s) =
     s\<lparr>doc := doc (snd (ensure_open s)), engine_log := engine_log (snd (ensure_open s))\<rparr>"
  by (simp add: ensure_open_def open_document_def doc_len_def split: option.splits)


lemma update_field_frame:
  "snd (update_field lk nf s pn fv) =
     s\<lparr>doc := doc (snd (update_field lk nf s pn fv)),
       engine_log := engine_log (snd (update_field lk nf s pn fv))\<rparr>"
proof -
  define t where "t = snd (update_field lk nf s pn fv)"
  obtain r s1 where e: "ensure_open s = (r, s1)" by (cases "ensure_open s")
  have s1: "s1 = s\<lparr>doc := doc s1, engine_log := engine_log s1\<rparr>"
    using ensure_open_frame[of s] e by simp
  have t: "t = s1\<lparr>doc := doc t\<rparr>"
    unfolding t_def using e
    by (simp add: update_field_def split: sum.splits prod.splits option.splits)
  have "engine_log t = engine_log s1" by (subst t) simp
  moreover have "t = s\<lparr>doc := doc t, engine_log := engine_log s1\<rparr>"
    by (subst t, subst s1) simp
  ultimately show ?thesis unfolding t_def by simp
qed

lemma run_update_frame:
  "snd (run_update s c) =
     s\<lparr>doc := doc (snd (run_update s c)), engine_log := engine_log (snd (run_update s c))\<rparr>"
  by (cases c)
     (simp_all add: update_field_by_anotation_id_and_page_number_def
        update_field_by_label_and_page_number_def update_field_frame[symmetric])

lemma run_updates_frame:
  "run_updates s cs =
     s\<lparr>doc := doc (run_updates s cs), engine_log := engine_log (run_updates s cs)\<rparr>"
proof (induction cs arbitrary: s)
  case Nil
  show ?case by simp
next
  case (Cons c cs)
  define s1 where "s1 = snd (run_update s c)"
  have a: "s1 = s\<lparr>doc := doc s1, engine_log := engine_log s1\<rparr>"
    unfolding s1_def by (rule run_update_frame)
  have b: "run_updates s1 cs =
      s1\<lparr>doc := doc (run_updates s1 cs), engine_log := engine_log (run_updates s1 cs)\<rparr>"
    by (rule Cons.IH)
  have "run_updates s1 cs =
      s\<lparr>doc := doc (run_updates s1 cs), engine_log := engine_log (run_updates s1 cs)\<rparr>"
    by (subst b, subst a) simp
  then show ?case by (simp add: s1_def)
qed

text \<open>
  C9. Whatever sequence of updates by id and by label is run, failed calls included,
  the session differs from the one before at most in the document handle (and in the
  engine's record of having opened it): \<open>self.pages\<close>, \<open>pdf_path\<close>, \<open>name\<close>,
  \<open>year\<close> and \<open>version\<close> are as before, and so is the exported JSON.
\<close>

theorem updates_touch_only_the_handle:
  "run_updates s calls =
     s\<lparr>doc := doc (run_updates s calls), engine_log := engine_log (run_updates s calls)\<rparr>
   \<and> pages (run_updates s calls) = pages s
   \<and> pdf_path (run_updates s calls) = pdf_path s
   \<and> name (run_updates s calls) = name s
   \<and> year (run_updates s calls) = year s
   \<and> version (run_updates s calls) = version s
   \<and> export_to_json (run_updates s calls) = export_to_json s"
proof -
  define t where "t = run_updates s calls"
  have t: "t = s\<lparr>doc := doc t, engine_log := engine_log t\<rparr>"
    unfolding t_def by (rule run_updates_frame)
  have p: "pages t = pages s" by (subst t) simp
  have q: "pdf_path t = pdf_path s" by (subst t) simp
  have n: "name t = name s" by (subst t) simp
  have y: "year t = year s" by (subst t) simp
  have v: "version t = version s" by (subst t) simp
  have "export_to_json t = export_to_json s"
    by (simp add: export_to_json_def p q n y v)
  with t p q n y v show ?thesis unfolding t_def by blast
qed


section \<open>The empty default value\<close>
















lemma update_field_resolved:
  assumes "ensure_open s = (Inr d, s1)" "page_index pn = Inr i"
    "doc_getitem d i = Inr (k, ws)" "lk ws = Some j" "normalize_field_value fv = Inr u"
  shows "update_field lk nf s pn fv =
     ((case fst (apply_update (widget_update s1) u (ws ! j)) of
         Some e \<Rightarrow> Inl e | None \<Rightarrow> Inr True),
      s1\<lparr>doc := Some (put_widget d k j ws (snd (apply_update (widget_update s1) u (ws ! j))))\<rparr>)"
  by (simp add: update_field_def assms split: prod.splits option.splits)









section \<open>The payload from a dict\<close>

lemma position_keys_iff:
  "(list_all (\<lambda>k. k \<in> set (map fst kv)) position_fields \<and>
    list_all (\<lambda>k. k \<in> set position_fields) (map fst kv)) =
   (fst ` set kv = {''x'', ''y'', ''width'', ''height'', ''unit''})"
  unfolding list_all_iff position_fields_def by auto

lemma formatting_keys_iff:
  "list_all (\<lambda>k. k \<in> set formatting_fields) (map fst kv) =
   (fst ` set kv \<subseteq>
      {''font_size'', ''font_family'', ''alignment'', ''max_length'', ''pattern'', ''required''})"
  unfolding list_all_iff formatting_fields_def by auto

lemma make_Position_eq:
  "make_Position pos =
     (case pos of
        JObj kv \<Rightarrow>
          (if fst ` set kv = {''x'', ''y'', ''width'', ''height'', ''unit''}
           then Inr \<lparr>pos_x = dict_get kv ''x'', pos_y = dict_get kv ''y'',
                     pos_width = dict_get kv ''width'', pos_height = dict_get kv ''height'',
                     pos_unit = dict_get kv ''unit''\<rparr>
           else Inl TypeError)
      | _ \<Rightarrow> Inl TypeError)"
  unfolding make_Position_def position_keys_iff by (rule refl)

lemma make_Formatting_eq:
  "make_Formatting fmt =
     (case fmt of
        JObj kv \<Rightarrow>
          (if fst ` set kv \<subseteq>
                {''font_size'', ''font_family'', ''alignment'', ''max_length'', ''pattern'',
                 ''required''}
           then Inr \<lparr>font_size = dict_get kv ''font_size'',
                     font_family = dict_get kv ''font_family'',
                     alignment = dict_get kv ''alignment'',
                     max_length = dict_get kv ''max_length'',
                     pattern = dict_get kv ''pattern'',
                     required = dict_get kv ''required''\<rparr>
           else Inl TypeError)
      | _ \<Rightarrow> Inl TypeError)"
  unfolding make_Formatting_def formatting_keys_iff by (rule refl)

text \<open>
  C10. \<open>UpdateField.from_dict\<close>, in full. A key that is missing reads as None, so
  any subset of the top-level keys is accepted. A truthy \<open>position\<close> must be a
  mapping whose keys are exactly x, y, width, height and unit, or the call raises; a
  truthy \<open>formatting\<close> must be a mapping whose keys are among the six fields, each
  of them optional. A falsy \<open>position\<close> or \<open>formatting\<close>, the empty mapping
  included, gives None.
\<close>

theorem from_dict_accepts:
  "from_dict data =
     (if truthy (dict_get data ''position'') \<and>
         \<not> (\<exists>kv. dict_get data ''position'' = JObj kv \<and>
                   fst ` set kv = {''x'', ''y'', ''width'', ''height'', ''unit''})
      then Inl TypeError
      else if truthy (dict_get data ''formatting'') \<and>
         \<not> (\<exists>kv. dict_get data ''formatting'' = JObj kv \<and>
                   fst ` set kv \<subseteq>
                     {''font_size'', ''font_family'', ''alignment'', ''max_length'',
                      ''pattern'', ''required''})
      then Inl TypeError
      else Inr \<lparr>uf_default_value = dict_get data ''default_value'',
                uf_label = dict_get data ''label'',
                uf_position =
                  (case dict_get data ''position'' of
                     JObj kv \<Rightarrow>
                       (if kv = [] then None
                        else Some \<lparr>pos_x = dict_get kv ''x'', pos_y = dict_get kv ''y'',
                                   pos_width = dict_get kv ''width'',
                                   pos_height = dict_get kv ''height'',
                                   pos_unit = dict_get kv ''unit''\<rparr>)
                   | _ \<Rightarrow> None),
                uf_formatting =
                  (case dict_get data ''formatting'' of
                     JObj kv \<Rightarrow>
                       (if kv = [] then None
                        else Some \<lparr>font_size = dict_get kv ''font_size'',
                                   font_family = dict_get kv ''font_family'',
                                   alignment = dict_get kv ''alignment'',
                                   max_length = dict_get kv ''max_length'',
                                   pattern = dict_get kv ''pattern'',
                                   required = dict_get kv ''required''\<rparr>)
                   | _ \<Rightarrow> None)\<rparr>)"
proof -
  define pos where "pos = dict_get data ''position''"
  define fmt where "fmt = dict_get data ''formatting''"
  show ?thesis
    unfolding from_dict_def Let_def pos_def[symmetric] fmt_def[symmetric]
    by (cases pos; cases fmt)
       (simp_all add: make_Position_eq make_Formatting_eq)
qed

text \<open>The payload of \<open>main.py\<close>, and the same position without its unit.\<close>

lemma from_dict_main_payload:
  "from_dict
     [(''default_value'', JStr ''Feb''), (''label'', JStr ''month''),
      (''position'',
         JObj [(''x'', JInt 226), (''y'', JInt 62), (''width'', JInt 76),
               (''height'', JInt 12), (''unit'', JStr ''pt'')]),
      (''formatting'',
         JObj [(''font_size'', JInt 12), (''font_family'', JStr ''Arial''),
               (''alignment'', JStr ''left''), (''max_length'', JInt 100)])]
   = Inr \<lparr>uf_default_value = JStr ''Feb'', uf_label = JStr ''month'',
            uf_position =
              Some \<lparr>pos_x = JInt 226, pos_y = JInt 62, pos_width = JInt 76,
                    pos_height = JInt 12, pos_unit = JStr ''pt''\<rparr>,
            uf_formatting =
              Some \<lparr>font_size = JInt 12, font_family = JStr ''Arial'',
                    alignment = JStr ''left'', max_length = JInt 100,
                    pattern = JNull, required = JNull\<rparr>\<rparr>"
  by (simp add: payload_defs)

lemma from_dict_position_without_unit:
  "from_dict
     [(''position'',
         JObj [(''x'', JInt 226), (''y'', JInt 62), (''width'', JInt 76),
               (''height'', JInt 12)])]
   = Inl TypeError"
  by (simp add: payload_defs)

section \<open>The order of extraction\<close>

lemma extract_widget_isl: "isl (extract_widget n w) = isl (extract_widget 0 w)"
proof -
  have "isl (extract_widget m w) =
        (isl (py_int (x0 (rect w))) \<or> isl (py_int (y0 (rect w))) \<or>
         isl (py_int (float_sub (x1 (rect w)) (x0 (rect w)))) \<or>
         isl (py_int (float_sub (y1 (rect w)) (y0 (rect w)))))" for m
    by (cases "py_int (x0 (rect w))"; cases "py_int (y0 (rect w))";
        cases "py_int (float_sub (x1 (rect w)) (x0 (rect w)))";
        cases "py_int (float_sub (y1 (rect w)) (y0 (rect w)))")
       (simp_all add: extract_widget_def Let_def)
  then show ?thesis by simp
qed

lemma extract_widget_Inr: 
  assumes "extractable w" shows "\<exists>a. extract_widget n w = Inr a"
proof -
  have "\<not> isl (extract_widget n w)"
    using assms unfolding extractable_def by (subst extract_widget_isl)
  then show ?thesis by (cases "extract_widget n w") simp_all
qed

lemma extract_widget_Inl:
  assumes "\<not> extractable w" shows "\<exists>e. extract_widget n w = Inl e"
proof -
  have "isl (extract_widget n w)"
    using assms unfolding extractable_def by (subst extract_widget_isl) simp
  then show ?thesis by (cases "extract_widget n w") simp_all
qed

lemma walk_widgets_acc:
  "\<exists>new. walk_widgets ws acc = acc @ new \<and>
     list_all2 (\<lambda>a (n, w). extract_widget n w = Inr a) new
       (enumerate (length acc) (filter extractable ws))"
proof (induction ws arbitrary: acc)
  case Nil
  show ?case by simp
next
  case (Cons w ws)
  show ?case
  proof (cases "extractable w")
    case False
    then obtain e where "extract_widget (length acc) w = Inl e"
      using extract_widget_Inl by blast
    with False Cons.IH[of acc] show ?thesis by simp
  next
    case True
    then obtain a where a: "extract_widget (length acc) w = Inr a"
      using extract_widget_Inr by blast
    from Cons.IH[of "acc @ [a]"] obtain new where
      n: "walk_widgets ws (acc @ [a]) = (acc @ [a]) @ new"
         "list_all2 (\<lambda>a (n, w). extract_widget n w = Inr a) new
            (enumerate (Suc (length acc)) (filter extractable ws))" by auto
    show ?thesis
      using True a n by (intro exI[of _ "a # new"]) simp
  qed
qed

lemma walk_widgets_order:
  "list_all2 (\<lambda>a (n, w). extract_widget n w = Inr a) (walk_widgets ws [])
     (enumerate 0 (filter extractable ws))"
  using walk_widgets_acc[of ws "[]"] by auto

lemma walk_widgets_empty_iff: "(walk_widgets ws [] = []) = (filter extractable ws = [])"
proof -
  have "length (walk_widgets ws []) = length (enumerate 0 (filter extractable ws))"
    using walk_widgets_order[of ws] by (rule list_all2_lengthD)
  then have "length (walk_widgets ws []) = length (filter extractable ws)" by simp
  then show ?thesis by (metis length_0_conv)
qed


lemma walk_pages_all_loadable:
  "list_all (\<lambda>n. n < length wss) ns \<Longrightarrow>
   walk_pages \<lparr>is_closed = False, doc_pages = map Page wss\<rparr> ns acc =
     (None,
      acc @ map (\<lambda>i. \<lparr>page_number = int i + 1, annotations = walk_widgets (wss ! i) []\<rparr>)
              (filter (\<lambda>i. filter extractable (wss ! i) \<noteq> []) ns))"
proof (induction ns arbitrary: acc)
  case Nil
  show ?case by simp
next
  case (Cons n ns)
  then have n: "n < length wss" and ns: "list_all (\<lambda>n. n < length wss) ns" by simp_all
  have g: "doc_getitem \<lparr>is_closed = False, doc_pages = map Page wss\<rparr> (int n) = Inr (n, wss ! n)"
    using n by (simp add: doc_getitem_nat)
  show ?case
    using Cons.IH[OF ns] by (simp add: g Let_def walk_widgets_empty_iff)
qed

lemma page_numbers_ascending:
  "sorted_wrt (<) (map page_number
     (map (\<lambda>i. \<lparr>page_number = int i + 1, annotations = f i\<rparr>) (filter P [0..<n])))"
proof -
  have "sorted_wrt (<) (filter P [0..<n])"
    by (rule sorted_wrt_filter) simp
  then have "sorted_wrt (\<lambda>x y. int x + 1 < int y + 1) (filter P [0..<n])"
    by (rule sorted_wrt_mono_rel[rotated]) simp
  then show ?thesis by (simp add: sorted_wrt_map comp_def)
qed

lemma init_all_loadable:
  assumes "pdf_files w path = Some (map Page wss)"
  shows "AnnotationForm_init w path nm yr ver =
     (Inr (),
      \<lparr>pdf_files = pdf_files w, json_files = json_files w, widget_update = widget_update w,
       writable = writable w, engine_log = engine_log w @ [Opened path, Closed],
       pdf_path = path, name = nm, year = yr, version = ver, doc = None,
       pages = map (\<lambda>i. \<lparr>page_number = int i + 1, annotations = walk_widgets (wss ! i) []\<rparr>)
                 (filter (\<lambda>i. filter extractable (wss ! i) \<noteq> []) [0..<length wss])\<rparr>)"
proof -
  have all: "list_all (\<lambda>n. n < length wss) [0..<length wss]" by (simp add: list_all_iff)
  show ?thesis
    by (simp add: AnnotationForm_init_def read_pdf_def open_document_def doc_len_def
        doc_close_def assms walk_pages_all_loadable[OF all] Let_def)
qed

text \<open>
  C8. For a document whose pages all load, with \<open>wss ! i\<close> the widgets of page
  \<open>i\<close> in the engine's order: construction succeeds; \<open>self.pages\<close> has one entry
  for each page with at least one successfully extracted widget and no other, in
  ascending page order, numbered from 1; and the annotations of any page are those of
  its successfully extracted widgets, in widget order, the \<open>n\<close>-th of them built with
  \<open>n\<close> annotations collected before it.
\<close>

theorem extraction_keeps_order:
  assumes "pdf_files w path = Some (map Page wss)"
  shows "fst (AnnotationForm_init w path nm yr ver) = Inr ()
   \<and> pages (snd (AnnotationForm_init w path nm yr ver)) =
       map (\<lambda>i. \<lparr>page_number = int i + 1, annotations = walk_widgets (wss ! i) []\<rparr>)
         (filter (\<lambda>i. 0 < length (filter extractable (wss ! i))) [0..<length wss])
   \<and> sorted_wrt (<) (map page_number (pages (snd (AnnotationForm_init w path nm yr ver))))
   \<and> list_all2 (\<lambda>a (n, x). extract_widget n x = Inr a) (walk_widgets ws [])
       (enumerate 0 (filter extractable ws))"
proof -
  note init = init_all_loadable[OF assms, of nm yr ver]
  have asc: "sorted_wrt (<) (map page_number
     (map (\<lambda>i. \<lparr>page_number = int i + 1, annotations = walk_widgets (wss ! i) []\<rparr>)
        (filter (\<lambda>i. filter extractable (wss ! i) \<noteq> []) [0..<length wss])))"
    by (rule page_numbers_ascending)
  show ?thesis
    unfolding init using asc walk_widgets_order[of ws] by simp
qed


lemma string_of_nat_0: "string_of_nat 0 = ''0''"
  by code_simp

theorem extraction_keeps_order_witness:
  "pdf_files three_page_world ''g.pdf'' =
     Some (map Page [[example_widget], [], [nan_widget, unnamed_widget]])
   \<and> fst (AnnotationForm_init three_page_world ''g.pdf'' ''form'' 2024 ''1'') = Inr ()
   \<and> pages (snd (AnnotationForm_init three_page_world ''g.pdf'' ''form'' 2024 ''1'')) =
       [\<lparr>page_number = 1, annotations = [example_annotation]\<rparr>,
        \<lparr>page_number = 3,
         annotations =
           [example_annotation
              \<lparr>ann_id := ''field_0'', ann_type := ''checkbox'',
               data_reference := \<lparr>dr_path = ''field_0'', dr_default_value = ''v''\<rparr>\<rparr>]\<rparr>]
   \<and> filter extractable [nan_widget, unnamed_widget] = [unnamed_widget]"
proof -
  have h: "pdf_files three_page_world ''g.pdf'' =
     Some (map Page [[example_widget], [], [nan_widget, unnamed_widget]])"
    by (simp add: three_page_world_def example_world_def)
  have e: "extractable example_widget" "\<not> extractable nan_widget" "extractable unnamed_widget"
    by (simp_all add: extractable_def extract_widget_def nan_widget_def unnamed_widget_def
        example_widget_def Let_def)
  have a: "walk_widgets [example_widget] [] = [example_annotation]"
    by (simp add: extract_defs example_defs Let_def)
  have b: "walk_widgets [nan_widget, unnamed_widget] [] =
     [example_annotation
        \<lparr>ann_id := ''field_0'', ann_type := ''checkbox'',
         data_reference := \<lparr>dr_path = ''field_0'', dr_default_value = ''v''\<rparr>\<rparr>]"
    by (simp add: extract_defs example_defs nan_widget_def unnamed_widget_def Let_def
        string_of_nat_0)
  have u: "[0..<3] = [0, 1, 2]" by (simp add: upt_rec)
  show ?thesis
    using extraction_keeps_order[OF h, of "''form''" 2024 "''1''" "[nan_widget, unnamed_widget]"]
    by (simp add: h e a b u del: walk_widgets.simps)
qed


section \<open>The bulk update against its contract\<close>

lemma then_true_simps [simp]:
  "then_true (Inl e, s) = (Inl e, s)"
  "then_true (Inr u, s) = (Inr True, s)"
  by (simp_all add: then_true_def)

lemma apply_planned_append:
  "apply_planned s (xs @ ys) =
     (case apply_planned s xs of
        (Inl e, s1) \<Rightarrow> (Inl e, s1)
      | (Inr ok, s1) \<Rightarrow> apply_planned s1 ys)"
proof (induction xs arbitrary: s)
  case Nil
  show ?case by simp
next
  case (Cons x xs)
  obtain aid pn na where x: "x = (aid, pn, na)" by (cases x)
  show ?case
    unfolding x
    by (simp add: Cons.IH split: sum.splits prod.splits)
qed

text \<open>Sequencing a loop body that agrees with a plan and a rest that agrees with a plan.\<close>

lemma then_true_seq:
  assumes "then_true r = apply_planned s xs"
    and "\<And>s1. then_true (k s1) = apply_planned s1 ys"
  shows "then_true (case r of (Inl e, s1) \<Rightarrow> (Inl e, s1) | (Inr u, s1) \<Rightarrow> k s1) =
         apply_planned s (xs @ ys)"
proof (cases r)
  case (Pair a s1)
  show ?thesis
  proof (cases a)
    case (Inl e)
    with Pair assms(1) have "apply_planned s xs = (Inl e, s1)" by simp
    with Pair Inl show ?thesis by (simp add: apply_planned_append)
  next
    case (Inr u)
    with Pair assms(1) have "apply_planned s xs = (Inr True, s1)" by simp
    with Pair Inr assms(2)[of s1] show ?thesis by (simp add: apply_planned_append)
  qed
qed

lemma scan_new_anns_plan:
  assumes "is_object page" "list_all is_object new_anns"
  shows "then_true (scan_new_anns s aid page new_anns) =
     apply_planned s
       [(aid, member page ''page_number'', new_ann).
          new_ann \<leftarrow> new_anns, member new_ann ''id'' = JStr aid]"
  using assms(2)
proof (induction new_anns arbitrary: s)
  case Nil
  show ?case by simp
next
  case (Cons na rest)
  then have h: "is_object na" and rest: "list_all is_object rest" by simp_all
  from h obtain akv where na: "na = JObj akv"
    by (cases na) (simp_all add: is_object_def)
  from assms(1) obtain pkv where page: "page = JObj pkv"
    by (cases page) (simp_all add: is_object_def)
  let ?pn = "member page ''page_number''"
  let ?plan = "\<lambda>xs. [(aid, ?pn, new_ann). new_ann \<leftarrow> xs, member new_ann ''id'' = JStr aid]"
  have IH: "then_true (scan_new_anns s1 aid page rest) = apply_planned s1 (?plan rest)" for s1
    by (rule Cons.IH[OF rest])
  have id: "py_get na ''id'' = Inr (member na ''id'')" by (simp add: na member_def)
  have pn: "py_get page ''page_number'' = Inr ?pn" by (simp add: page member_def)
  show ?case
  proof (cases "member na ''id'' = JStr aid")
    case False
    then have ne: "JStr aid \<noteq> member na ''id''" by metis
    have sc: "scan_new_anns s aid page (na # rest) = scan_new_anns s aid page rest"
      by (simp add: id ne)
    have pl: "?plan (na # rest) = ?plan rest" using False by simp
    show ?thesis unfolding sc pl by (rule IH)
  next
    case True
    have pl: "?plan (na # rest) = (aid, ?pn, na) # ?plan rest" using True by simp
    show ?thesis
    proof (cases "update_body na")
      case (Inl e)
      have sc: "scan_new_anns s aid page (na # rest) = (Inl e, s)"
        by (simp add: id True[symmetric] Inl)
      show ?thesis unfolding sc pl by (simp add: Inl)
    next
      case (Inr body)
      obtain r s1 where u: "update_field_by_anotation_id_and_page_number s aid ?pn
          (AsDict body) = (r, s1)"
        by (cases "update_field_by_anotation_id_and_page_number s aid ?pn (AsDict body)")
      show ?thesis
      proof (cases r)
        case e: (Inl e)
        have sc: "scan_new_anns s aid page (na # rest) = (Inl e, s1)"
          using u e by (simp add: id True[symmetric] Inr pn)
        show ?thesis unfolding sc pl using u e by (simp add: Inr)
      next
        case ok: (Inr b)
        have sc: "scan_new_anns s aid page (na # rest) = scan_new_anns s1 aid page rest"
          using u ok by (simp add: id True[symmetric] Inr pn)
        show ?thesis unfolding sc pl using u ok by (simp add: Inr IH)
      qed
    qed
  qed
qed


lemma well_formed_pageD:
  assumes "well_formed_page p"
  shows "is_object p \<and>
         py_get p ''annotations'' = Inr (JList (items (member p ''annotations''))) \<and>
         list_all is_object (items (member p ''annotations''))"
proof -
  from assms obtain kv where p: "p = JObj kv"
    by (cases p) (simp_all add: well_formed_page_def)
  with assms obtain anns where a: "dict_get kv ''annotations'' = JList anns"
    by (cases "dict_get kv ''annotations''") (simp_all add: well_formed_page_def)
  with assms p have "list_all is_object anns" by (simp add: well_formed_page_def)
  with p a show ?thesis by (simp add: is_object_def member_def items_def)
qed

lemma scan_new_pages_plan:
  assumes "list_all well_formed_page ps"
  shows "then_true (scan_new_pages s aid ps) =
     apply_planned s
       [(aid, member new_page ''page_number'', new_ann).
          new_page \<leftarrow> ps, new_ann \<leftarrow> items (member new_page ''annotations''),
          member new_ann ''id'' = JStr aid]"
  using assms
proof (induction ps arbitrary: s)
  case Nil
  show ?case by simp
next
  case (Cons p rest)
  then have wf: "well_formed_page p" and rest: "list_all well_formed_page rest" by simp_all
  let ?anns = "items (member p ''annotations'')"
  let ?here = "[(aid, member p ''page_number'', new_ann).
                  new_ann \<leftarrow> ?anns, member new_ann ''id'' = JStr aid]"
  let ?later = "[(aid, member new_page ''page_number'', new_ann).
          new_page \<leftarrow> rest, new_ann \<leftarrow> items (member new_page ''annotations''),
          member new_ann ''id'' = JStr aid]"
  from well_formed_pageD[OF wf] have
    o: "is_object p" and g: "py_get p ''annotations'' = Inr (JList ?anns)" and
    a: "list_all is_object ?anns" by simp_all
  have sc: "scan_new_pages s aid (p # rest) =
     (case scan_new_anns s aid p ?anns of
        (Inl e, s1) \<Rightarrow> (Inl e, s1) | (Inr u, s1) \<Rightarrow> scan_new_pages s1 aid rest)"
    by (simp add: g)
  have "then_true (case scan_new_anns s aid p ?anns of
        (Inl e, s1) \<Rightarrow> (Inl e, s1) | (Inr u, s1) \<Rightarrow> scan_new_pages s1 aid rest) =
     apply_planned s (?here @ ?later)"
    by (rule then_true_seq) (rule scan_new_anns_plan[OF o a], rule Cons.IH[OF rest])
  then show ?case unfolding sc by simp
qed

lemma well_formed_importD:
  assumes "well_formed_import updated"
  shows "py_get updated ''pages'' = Inr (JList (items (member updated ''pages''))) \<and>
         items (member updated ''pages'') \<noteq> [] \<and>
         list_all well_formed_page (items (member updated ''pages''))"
proof -
  from assms obtain kv where p: "updated = JObj kv"
    by (cases updated) (simp_all add: well_formed_import_def)
  with assms obtain ps where a: "dict_get kv ''pages'' = JList ps"
    by (cases "dict_get kv ''pages''") (simp_all add: well_formed_import_def)
  with assms p have "ps \<noteq> [] \<and> list_all well_formed_page ps"
    by (simp add: well_formed_import_def)
  with p a show ?thesis by (simp add: member_def items_def)
qed

lemma scan_annotations_plan:
  assumes "well_formed_import updated"
  shows "then_true (scan_annotations s updated anns) =
     apply_planned s
       [(ann_id ann, member new_page ''page_number'', new_ann).
          ann \<leftarrow> anns, new_page \<leftarrow> items (member updated ''pages''),
          new_ann \<leftarrow> items (member new_page ''annotations''),
          member new_ann ''id'' = JStr (ann_id ann)]"
proof (induction anns arbitrary: s)
  case Nil
  show ?case by simp
next
  case (Cons ann rest)
  let ?ps = "items (member updated ''pages'')"
  from well_formed_importD[OF assms] have
    g: "py_get updated ''pages'' = Inr (JList ?ps)" and wf: "list_all well_formed_page ?ps"
    by simp_all
  have sc: "scan_annotations s updated (ann # rest) =
     (case scan_new_pages s (ann_id ann) ?ps of
        (Inl e, s1) \<Rightarrow> (Inl e, s1) | (Inr u, s1) \<Rightarrow> scan_annotations s1 updated rest)"
    by (simp add: g)
  have "then_true (case scan_new_pages s (ann_id ann) ?ps of
        (Inl e, s1) \<Rightarrow> (Inl e, s1) | (Inr u, s1) \<Rightarrow> scan_annotations s1 updated rest) =
     apply_planned s
       ([(ann_id ann, member new_page ''page_number'', new_ann).
          new_page \<leftarrow> ?ps, new_ann \<leftarrow> items (member new_page ''annotations''),
          member new_ann ''id'' = JStr (ann_id ann)] @
        [(ann_id ann, member new_page ''page_number'', new_ann).
          ann \<leftarrow> rest, new_page \<leftarrow> ?ps,
          new_ann \<leftarrow> items (member new_page ''annotations''),
          member new_ann ''id'' = JStr (ann_id ann)])"
    by (rule then_true_seq) (rule scan_new_pages_plan[OF wf], rule Cons.IH)
  then show ?case unfolding sc by simp
qed

lemma scan_pages_plan:
  assumes "well_formed_import updated"
  shows "then_true (scan_pages s updated live) = apply_planned s (planned_updates live updated)"
proof (induction live arbitrary: s)
  case Nil
  show ?case by (simp add: planned_updates_def)
next
  case (Cons page rest)
  have "then_true (case scan_annotations s updated (annotations page) of
        (Inl e, s1) \<Rightarrow> (Inl e, s1) | (Inr u, s1) \<Rightarrow> scan_pages s1 updated rest) =
     apply_planned s
       ([(ann_id ann, member new_page ''page_number'', new_ann).
          ann \<leftarrow> annotations page, new_page \<leftarrow> items (member updated ''pages''),
          new_ann \<leftarrow> items (member new_page ''annotations''),
          member new_ann ''id'' = JStr (ann_id ann)] @ planned_updates rest updated)"
    by (rule then_true_seq) (rule scan_annotations_plan[OF assms], rule Cons.IH)
  then show ?case by (simp add: planned_updates_def)
qed

lemma load_follows_plan:
  assumes "json_files s json_path = Some updated" "well_formed_import updated"
  shows "load_updated_annotaion_json s json_path =
         apply_planned s (planned_updates (pages s) updated)"
proof -
  let ?ps = "items (member updated ''pages'')"
  from well_formed_importD[OF assms(2)] have
    g: "py_get updated ''pages'' = Inr (JList ?ps)" and ne: "?ps \<noteq> []" by simp_all
  have "load_updated_annotaion_json s json_path = then_true (scan_pages s updated (pages s))"
    by (simp add: load_updated_annotaion_json_def assms(1) g ne then_true_def)
  then show ?thesis by (simp add: scan_pages_plan[OF assms(2)])
qed

lemma two_page_form_constructed:
  "AnnotationForm_init
     (example_world
        \<lparr>pdf_files :=
           [''h.pdf'' \<mapsto>
              [Page [example_widget], Page [example_widget\<lparr>field_value := Some ''w''\<rparr>]]]\<rparr>)
     ''h.pdf'' ''form'' 2024 ''1''
   = (Inr (), two_page_form)"
  by (simp add: two_page_form_def example_defs engine_defs extract_defs Let_def upt_rec)

text \<open>
  C5. On an import that conforms to the export schema in shape, the bulk update is the
  run of the planned updates: for each live annotation, in tree order, every imported
  annotation on any imported page whose id equals the live id (nothing else is
  compared), applied through the update by id under the page number of the imported
  page, up to the first update that raises.
\<close>

theorem bulk_update_follows_imported_pages:
  assumes "json_files s json_path = Some updated" "well_formed_import updated"
  shows "load_updated_annotaion_json s json_path =
         apply_planned s (planned_updates (pages s) updated)"
  using assms by (rule load_follows_plan)

lemma moved_import_well_formed: "well_formed_import moved_import"
  by (simp add: well_formed_import_def well_formed_page_def is_object_def moved_import_def
      moved_annotation_def dict_get_def)

lemma moved_import_plan:
  "planned_updates (pages two_page_form) moved_import =
     [(''a'', JInt 2, moved_annotation), (''a'', JInt 2, moved_annotation)]"
  by (simp add: planned_updates_def two_page_form_def example_annotation_def moved_import_def
      member_def items_def dict_get_def)
     (simp add: moved_annotation_def dict_get_def)

text \<open>
  Both pages of the two-page form hold a field \<open>a\<close>; the import lists \<open>a\<close> under
  page 2 only. The live annotation of page 1 and that of page 2 are both applied to
  page 2, whose widget gets the label; the widget of page 1 is untouched.
\<close>

theorem bulk_update_follows_imported_pages_witness:
  "json_files (two_page_form\<lparr>json_files := [''j'' \<mapsto> moved_import]\<rparr>) ''j'' = Some moved_import
   \<and> well_formed_import moved_import
   \<and> map page_number (pages (two_page_form\<lparr>json_files := [''j'' \<mapsto> moved_import]\<rparr>)) = [1, 2]
   \<and> planned_updates (pages (two_page_form\<lparr>json_files := [''j'' \<mapsto> moved_import]\<rparr>))
        moved_import =
       [(''a'', JInt 2, moved_annotation), (''a'', JInt 2, moved_annotation)]
   \<and> load_updated_annotaion_json (two_page_form\<lparr>json_files := [''j'' \<mapsto> moved_import]\<rparr>) ''j'' =
       (Inr True,
        two_page_form
          \<lparr>json_files := [''j'' \<mapsto> moved_import],
           engine_log := [Opened ''h.pdf'', Closed, Opened ''h.pdf''],
           doc :=
             Some \<lparr>is_closed = False,
                   doc_pages =
                     [Page [example_widget],
                      Page [example_widget
                              \<lparr>field_value := Some ''w'', field_label := Some ''moved''\<rparr>]]\<rparr>\<rparr>)"
proof -
  let ?s = "two_page_form\<lparr>json_files := [''j'' \<mapsto> moved_import]\<rparr>"
  have f: "json_files ?s ''j'' = Some moved_import" by simp
  have p: "pages ?s = pages two_page_form" by simp
  have b: "update_body moved_annotation =
     Inr [(''default_value'', JStr []), (''label'', JStr ''moved''),
          (''position'', JNull), (''formatting'', JNull)]"
    by (simp add: update_body_def moved_annotation_def dict_get_def)
  have run: "apply_planned ?s [(''a'', JInt 2, moved_annotation), (''a'', JInt 2, moved_annotation)] =
       (Inr True,
        two_page_form
          \<lparr>json_files := [''j'' \<mapsto> moved_import],
           engine_log := [Opened ''h.pdf'', Closed, Opened ''h.pdf''],
           doc :=
             Some \<lparr>is_closed = False,
                   doc_pages =
                     [Page [example_widget],
                      Page [example_widget
                              \<lparr>field_value := Some ''w'', field_label := Some ''moved''\<rparr>]]\<rparr>\<rparr>)"
    by (simp add: b two_page_form_def example_widget_def engine_defs update_defs payload_defs)
  show ?thesis
    using bulk_update_follows_imported_pages[OF f moved_import_well_formed]
    by (simp add: moved_import_well_formed moved_import_plan run del: apply_planned.simps)
       (simp add: two_page_form_def)
qed

lemma no_common_id_no_plan:
  assumes "set (imported_ids updated) \<inter> JStr ` set (live_ids s) = {}"
  shows "planned_updates (pages s) updated = []"
proof -
  have "member new_ann ''id'' \<noteq> JStr (ann_id ann)"
    if "page \<in> set (pages s)" "ann \<in> set (annotations page)"
       "new_page \<in> set (items (member updated ''pages''))"
       "new_ann \<in> set (items (member new_page ''annotations''))"
    for page ann new_page new_ann
  proof -
    have "member new_ann ''id'' \<in> set (imported_ids updated)"
      using that(3,4) by (auto simp: imported_ids_def)
    moreover have "JStr (ann_id ann) \<in> JStr ` set (live_ids s)"
      using that(1,2) by (auto simp: live_ids_def)
    ultimately show ?thesis using assms by auto
  qed
  then show ?thesis by (simp add: planned_updates_def)
qed

text \<open>
  C6, against the claim. An import whose \<open>pages\<close> key holds the empty list has the
  key and no id at all, yet the guard \<open>if not ....get("pages")\<close> takes it for
  missing and the call raises.
\<close>

theorem empty_pages_list_is_refused:
  "load_updated_annotaion_json import_form ''e'' = (Inl InvalidJson, import_form)"
  by (simp add: load_updated_annotaion_json_def import_form_def dict_get_def)

text \<open>
  C6, as the code has it. An import whose \<open>pages\<close> is a non-empty list of page objects,
  each with a list of annotation objects, none of whose ids is the id of a live
  annotation, leaves the whole session as it was (no document is opened, no widget
  touched) and returns True. An import that is an object whose \<open>pages\<close> is missing
  or falsy raises with the session as it was.
\<close>

theorem unmatched_import_changes_nothing:
  assumes "json_files s json_path = Some updated"
  shows "(well_formed_import updated \<and>
          set (imported_ids updated) \<inter> JStr ` set (live_ids s) = {} \<longrightarrow>
          load_updated_annotaion_json s json_path = (Inr True, s))
       \<and> ((\<exists>kv. updated = JObj kv \<and> \<not> truthy (dict_get kv ''pages'')) \<longrightarrow>
          load_updated_annotaion_json s json_path = (Inl InvalidJson, s))"
proof (intro conjI impI)
  assume a: "well_formed_import updated \<and>
          set (imported_ids updated) \<inter> JStr ` set (live_ids s) = {}"
  then have "planned_updates (pages s) updated = []" by (simp add: no_common_id_no_plan)
  with a assms show "load_updated_annotaion_json s json_path = (Inr True, s)"
    by (simp add: load_follows_plan)
next
  assume "\<exists>kv. updated = JObj kv \<and> \<not> truthy (dict_get kv ''pages'')"
  then obtain kv where "updated = JObj kv" "\<not> truthy (dict_get kv ''pages'')" by blast
  with assms show "load_updated_annotaion_json s json_path = (Inl InvalidJson, s)"
    by (simp add: load_updated_annotaion_json_def)
qed

theorem unmatched_import_changes_nothing_witness:
  "json_files import_form ''s'' = Some stranger_import
   \<and> well_formed_import stranger_import
   \<and> imported_ids stranger_import = [JStr ''z'']
   \<and> live_ids import_form = [''a'']
   \<and> load_updated_annotaion_json import_form ''s'' = (Inr True, import_form)
   \<and> json_files import_form ''n'' = Some (JObj [(''pdf_info'', JObj [])])
   \<and> load_updated_annotaion_json import_form ''n'' = (Inl InvalidJson, import_form)"
proof -
  have f: "json_files import_form ''s'' = Some stranger_import"
    and g: "json_files import_form ''n'' = Some (JObj [(''pdf_info'', JObj [])])"
    by (simp_all add: import_form_def)
  have w: "well_formed_import stranger_import"
    by (simp add: well_formed_import_def well_formed_page_def is_object_def
        stranger_import_def dict_get_def)
  have i: "imported_ids stranger_import = [JStr ''z'']"
    by (simp add: imported_ids_def stranger_import_def member_def items_def dict_get_def)
  have l: "live_ids import_form = [''a'']"
    by (simp add: live_ids_def import_form_def example_form_def example_annotation_def)
  show ?thesis
    using unmatched_import_changes_nothing[OF f] unmatched_import_changes_nothing[OF g]
    by (simp add: f g w i l dict_get_def)
qed



section \<open>The round trip through export and import\<close>

lemma extract_widget_InrD:
  assumes "extract_widget m w = Inr a"
  shows "\<exists>x y wd ht.
     py_int (x0 (rect w)) = Inr x \<and> py_int (y0 (rect w)) = Inr y \<and>
     py_int (float_sub (x1 (rect w)) (x0 (rect w))) = Inr wd \<and>
     py_int (float_sub (y1 (rect w)) (y0 (rect w))) = Inr ht \<and>
     a = \<lparr>ann_id = str_or (field_name w) (''field_'' @ string_of_nat m),
          ann_type = map_pymupdf_field_type (str_or (field_type_string w) []),
          ann_position =
            \<lparr>pos_x = JInt x, pos_y = JInt y, pos_width = JInt wd,
             pos_height = JInt ht, pos_unit = JStr ''pt''\<rparr>,
          ann_formatting =
            \<lparr>font_size = JInt 8, font_family = JStr ''Arial'',
             alignment = JStr ''left'', max_length = JInt 100,
             pattern = JStr [], required = JBool False\<rparr>,
          data_reference =
            \<lparr>dr_path = str_or (field_name w) (''field_'' @ string_of_nat m),
             dr_default_value = str_or (field_value w) []\<rparr>,
          ann_label = field_label w\<rparr>"
  using assms
  by (cases "py_int (x0 (rect w))"; cases "py_int (y0 (rect w))";
      cases "py_int (float_sub (x1 (rect w)) (x0 (rect w)))";
      cases "py_int (float_sub (y1 (rect w)) (y0 (rect w)))")
     (auto simp: extract_widget_def Let_def)

lemma exported_payload:
  "normalize_field_value
     (AsDict [(''default_value'', JStr (dr_default_value (data_reference a))),
              (''label'', json_of_label (ann_label a)),
              (''position'',
                 JObj [(''x'', pos_x (ann_position a)), (''y'', pos_y (ann_position a)),
                       (''width'', pos_width (ann_position a)),
                       (''height'', pos_height (ann_position a)),
                       (''unit'', pos_unit (ann_position a))]),
              (''formatting'',
                 JObj [(''font_size'', font_size (ann_formatting a)),
                       (''font_family'', font_family (ann_formatting a)),
                       (''alignment'', alignment (ann_formatting a)),
                       (''max_length'', max_length (ann_formatting a)),
                       (''pattern'', pattern (ann_formatting a)),
                       (''required'', required (ann_formatting a))])])
   = Inr \<lparr>uf_default_value = JStr (dr_default_value (data_reference a)),
          uf_label = json_of_label (ann_label a),
          uf_position = Some (ann_position a),
          uf_formatting = Some (ann_formatting a)\<rparr>"
  by (simp add: payload_defs)

lemma update_body_ann_data:
  "update_body (ann_data a) =
     Inr [(''default_value'', JStr (dr_default_value (data_reference a))),
          (''label'', json_of_label (ann_label a)),
          (''position'',
             JObj [(''x'', pos_x (ann_position a)), (''y'', pos_y (ann_position a)),
                   (''width'', pos_width (ann_position a)),
                   (''height'', pos_height (ann_position a)),
                   (''unit'', pos_unit (ann_position a))]),
          (''formatting'',
             JObj [(''font_size'', font_size (ann_formatting a)),
                   (''font_family'', font_family (ann_formatting a)),
                   (''alignment'', alignment (ann_formatting a)),
                   (''max_length'', max_length (ann_formatting a)),
                   (''pattern'', pattern (ann_formatting a)),
                   (''required'', required (ann_formatting a))])]"
  by (simp add: update_body_def ann_data_def dict_get_def)


lemma round_trip_widget_keeps:
  "field_name (round_trip_widget w) = field_name w"
  "field_type_string (round_trip_widget w) = field_type_string w"
  "field_value (round_trip_widget w) = field_value w"
  "field_label (round_trip_widget w) = field_label w"
  "rect (round_trip_widget w) = rect w"
  by (simp_all add: round_trip_widget_def)

lemma wholeD: "whole p \<Longrightarrow> \<exists>n :: int. p = Finite (of_int n) \<and> \<bar>n\<bar> \<le> 16777216"
proof (cases p)
  case (Finite q)
  assume "whole p"
  with Finite have "q \<in> \<int>" "\<bar>q\<bar> \<le> 16777216" by simp_all
  from this(1) obtain n :: int where n: "q = of_int n" by (rule Ints_cases)
  with \<open>\<bar>q\<bar> \<le> 16777216\<close> have "\<bar>n\<bar> \<le> 16777216"
    by (metis of_int_abs of_int_le_iff of_int_numeral)
  with Finite n show ?thesis by blast
qed simp_all

lemma integer_rectD:
  assumes "integer_rect r"
  shows "\<exists>a b c d :: int.
           r = \<lparr>x0 = Finite (of_int a), y0 = Finite (of_int b),
                x1 = Finite (of_int c), y1 = Finite (of_int d)\<rparr> \<and>
           a < c \<and> b < d \<and> \<bar>a\<bar> \<le> 16777216 \<and> \<bar>b\<bar> \<le> 16777216"
proof -
  from assms have w: "whole (x0 r)" "whole (y0 r)" "whole (x1 r)" "whole (y1 r)"
    and ne: "\<not> rect_is_empty r" by (simp_all add: integer_rect_def)
  from wholeD[OF w(1)] obtain a :: int where a: "x0 r = Finite (of_int a)" "\<bar>a\<bar> \<le> 16777216"
    by blast
  from wholeD[OF w(2)] obtain b :: int where b: "y0 r = Finite (of_int b)" "\<bar>b\<bar> \<le> 16777216"
    by blast
  from wholeD[OF w(3)] obtain c :: int where c: "x1 r = Finite (of_int c)" by blast
  from wholeD[OF w(4)] obtain d :: int where d: "y1 r = Finite (of_int d)" by blast
  have r: "r = \<lparr>x0 = Finite (of_int a), y0 = Finite (of_int b),
                x1 = Finite (of_int c), y1 = Finite (of_int d)\<rparr>"
    using a(1) b(1) c d by (cases r) simp
  from ne have "a < c" "b < d" by (simp_all add: rect_is_empty_def a b c d)
  with r a(2) b(2) show ?thesis by blast
qed

lemma py_int_of_int: "py_int (Finite (of_int n)) = Inr n"
  by simp

lemma py_int_of_int_diff: "py_int (Finite (of_int c - of_int a)) = Inr (c - a)"
  using py_int_of_int[of "c - a"] by simp

lemma integer_rect_extractable:
  assumes "integer_rect (rect x)"
  shows "extractable x"
proof -
  from integer_rectD[OF assms] obtain a b c d :: int where
    "rect x = \<lparr>x0 = Finite (of_int a), y0 = Finite (of_int b),
               x1 = Finite (of_int c), y1 = Finite (of_int d)\<rparr>" by blast
  then show ?thesis
    by (simp add: extractable_def extract_widget_def Let_def py_int_of_int_diff
        del: py_int.simps add: py_int_of_int)
qed

lemma new_rect_extracted:
  assumes a: "extract_widget m x = Inr a" and box: "integer_rect (rect x)"
  shows "new_rect (ann_position a) = Inr (rect x)"
proof -
  from integer_rectD[OF box] obtain a' b c d :: int where
    r: "rect x = \<lparr>x0 = Finite (of_int a'), y0 = Finite (of_int b),
                   x1 = Finite (of_int c), y1 = Finite (of_int d)\<rparr>" by blast
  from extract_widget_InrD[OF a] obtain px py wd ht where
    c: "py_int (x0 (rect x)) = Inr px" "py_int (y0 (rect x)) = Inr py"
       "py_int (float_sub (x1 (rect x)) (x0 (rect x))) = Inr wd"
       "py_int (float_sub (y1 (rect x)) (y0 (rect x))) = Inr ht"
    and pos: "ann_position a =
            \<lparr>pos_x = JInt px, pos_y = JInt py, pos_width = JInt wd,
             pos_height = JInt ht, pos_unit = JStr ''pt''\<rparr>"
    by auto
  from c have "px = a'" "py = b" "wd = c - a'" "ht = d - b"
    unfolding r by (simp_all only: Rect.simps float_sub.simps py_int_of_int py_int_of_int_diff
        sum.inject)
  then show ?thesis by (simp add: new_rect_def pos r)
qed

text \<open>The engine accepts a named widget with such a rectangle and adjusts its font.\<close>

lemma pymupdf_update_accepts:
  assumes "integer_rect (rect w)" "field_name w = Some n" "n \<noteq> []"
  shows "pymupdf_update w = Inr (w\<lparr>text_font := Some (adjust_font (text_font w))\<rparr>)"
proof -
  from integer_rectD[OF assms(1)] obtain a b c d :: int where
    r: "rect w = \<lparr>x0 = Finite (of_int a), y0 = Finite (of_int b),
                   x1 = Finite (of_int c), y1 = Finite (of_int d)\<rparr>"
    and a: "\<bar>a\<bar> \<le> 16777216" by blast
  have "(of_int a :: rat) \<noteq> - 2147483648"
  proof
    assume "(of_int a :: rat) = - 2147483648"
    then have "(of_int a :: rat) = of_int (- 2147483648)" by simp
    then have "a = - 2147483648" by (simp only: of_int_eq_iff)
    with a show False by simp
  qed
  then have inf: "\<not> rect_is_infinite (rect w)" by (simp add: rect_is_infinite_def r)
  have ne: "\<not> rect_is_empty (rect w)" using assms(1) by (simp add: integer_rect_def)
  show ?thesis
    using inf ne assms(2,3)
    by (cases w) (simp add: pymupdf_update_def)
qed

text \<open>
  One update of the round trip, on the widget as it was or as an earlier update of the
  round trip left it.
\<close>

lemma round_trip_apply:
  assumes a: "extract_widget m x = Inr a"
    and box: "integer_rect (rect x)" and nm: "field_name x = Some n" "n \<noteq> []"
    and y: "y = x \<or> y = round_trip_widget x"
  shows "apply_update pymupdf_update
           \<lparr>uf_default_value = JStr (dr_default_value (data_reference a)),
            uf_label = json_of_label (ann_label a),
            uf_position = Some (ann_position a),
            uf_formatting = Some (ann_formatting a)\<rparr> y
         = (None, round_trip_widget x)"
proof -
  let ?u = "\<lparr>uf_default_value = JStr (dr_default_value (data_reference a)),
            uf_label = json_of_label (ann_label a),
            uf_position = Some (ann_position a),
            uf_formatting = Some (ann_formatting a)\<rparr>"
  from extract_widget_InrD[OF a] have
    fmt: "ann_formatting a =
            \<lparr>font_size = JInt 8, font_family = JStr ''Arial'',
             alignment = JStr ''left'', max_length = JInt 100,
             pattern = JStr [], required = JBool False\<rparr>"
    and dv: "dr_default_value (data_reference a) = str_or (field_value x) []"
    and lb: "ann_label a = field_label x"
    by auto
  have r: "new_rect (ann_position a) = Inr (rect x)" using a box by (rule new_rect_extracted)
  have acc: "pymupdf_update z = Inr (z\<lparr>text_font := Some (adjust_font (text_font z))\<rparr>)"
    if "rect z = rect x" "field_name z = field_name x" for z
    using box nm that by (intro pymupdf_update_accepts[where n = n]) simp_all
  have ry: "rect y = rect x" and ny: "field_name y = field_name x"
    and vy: "field_value y = field_value x" and ly: "field_label y = field_label x"
    using y by (auto simp: round_trip_widget_keeps)
  obtain f1 where s1: "step_value pymupdf_update ?u y = Inr (y\<lparr>text_font := f1\<rparr>)"
  proof (cases "str_or (field_value x) [] = []")
    case True
    have "y\<lparr>text_font := text_font y\<rparr> = y" by simp
    with True that[of "text_font y"] show ?thesis by (simp add: step_value_def dv)
  next
    case False
    then obtain v where v: "field_value x = Some v" "v \<noteq> []"
      by (cases "field_value x") (simp_all split: if_splits)
    have e: "y\<lparr>field_value := Some v\<rparr> = y" using v(1) vy by (cases y) simp
    show ?thesis
      using that[of "Some (adjust_font (text_font y))"] v
      by (simp add: step_value_def dv e acc[OF ry ny])
  qed
  let ?y1 = "y\<lparr>text_font := f1\<rparr>"
  have e1: "?y1\<lparr>rect := rect x\<rparr> = ?y1" using ry by (cases y) simp
  have s2: "step_position pymupdf_update ?u ?y1 =
            Inr (y\<lparr>text_font := Some (adjust_font f1)\<rparr>)"
    using acc[of ?y1] ry ny by (simp add: step_position_def r e1)
  let ?y2 = "y\<lparr>text_font := Some (adjust_font f1)\<rparr>"
  have e2: "?y2\<lparr>text_fontsize := 8, text_font := Some ''Arial''\<rparr> =
            y\<lparr>text_fontsize := 8, text_font := Some ''Arial''\<rparr>" by simp
  have e3: "y\<lparr>text_fontsize := 8, text_font := Some ''Helv''\<rparr> = round_trip_widget x"
    using y by (auto simp: round_trip_widget_def)
  have s3: "step_formatting pymupdf_update ?u ?y2 = Inr (round_trip_widget x)"
    using acc[of "y\<lparr>text_fontsize := 8, text_font := Some ''Arial''\<rparr>"] ry ny
    by (simp add: step_formatting_def fmt set_text_fontsize_def set_text_font_def e2
        adjust_font_examples e3)
  let ?z = "round_trip_widget x"
  have s4: "step_label pymupdf_update ?u ?z = Inr ?z"
  proof (cases "field_label x")
    case None
    then show ?thesis by (simp add: step_label_def lb json_of_label_def)
  next
    case (Some l)
    have e: "?z\<lparr>field_label := Some l\<rparr> = ?z"
      using Some by (cases x) (simp add: round_trip_widget_def)
    have "pymupdf_update ?z = Inr ?z"
      using acc[of ?z] by (simp add: round_trip_widget_keeps)
         (simp add: round_trip_widget_def adjust_font_examples)
    with Some show ?thesis
      by (cases "l = []") (simp_all add: step_label_def lb json_of_label_def e)
  qed
  show ?thesis by (simp add: apply_update_def s1 s2 s3 s4)
qed

lemma find_first_distinct:
  "distinct (map f xs) \<Longrightarrow> j < length xs \<Longrightarrow>
   find_first (\<lambda>w. f w = f (xs ! j)) xs = Some j"
proof (induction xs arbitrary: j)
  case Nil
  then show ?case by simp
next
  case (Cons x xs)
  show ?case
  proof (cases j)
    case 0
    then show ?thesis by simp
  next
    case (Suc k)
    with Cons.prems have k: "k < length xs" and d: "distinct (map f xs)"
      and "f x \<notin> f ` set xs" by simp_all
    then have "f x \<noteq> f (xs ! k)" by (metis imageI nth_mem)
    with Suc Cons.IH[OF d k] show ?thesis by simp
  qed
qed

lemma find_first_cong:
  "map f xs = map f ys \<Longrightarrow> find_first (\<lambda>w. f w = v) xs = find_first (\<lambda>w. f w = v) ys"
proof (induction xs arbitrary: ys)
  case Nil
  then show ?case by simp
next
  case (Cons x xs)
  then obtain y ys' where ys: "ys = y # ys'" by (cases ys) simp_all
  with Cons.prems have "f x = f y" "map f xs = map f ys'" by simp_all
  with Cons.IH[of ys'] ys show ?case by simp
qed

text \<open>Widgets that are each the original or its round trip.\<close>

lemma round_tripped_names:
  assumes "list_all2 (\<lambda>c x. c = x \<or> c = round_trip_widget x) cs ws"
  shows "map field_name cs = map field_name ws"
  using assms
  by (induction cs ws rule: list_all2_induct) (auto simp: round_trip_widget_keeps)

lemma ensure_open_round_trip:
  assumes base: "doc s0 = None" "pdf_files s0 (pdf_path s0) = Some (map Page wss)" "wss \<noteq> []"
    and at: "(cur = s0 \<and> css = wss) \<or> cur = reopened s0 css"
    and len: "length css = length wss"
  shows "ensure_open cur = (Inr \<lparr>is_closed = False, doc_pages = map Page css\<rparr>, reopened s0 css)"
  using at
proof
  assume "cur = s0 \<and> css = wss"
  with base show ?thesis
    by (simp add: ensure_open_def open_document_def reopened_def)
next
  assume "cur = reopened s0 css"
  with base len show ?thesis
    by (simp add: ensure_open_def doc_len_def reopened_def)
qed

lemma round_trip_step:
  assumes base: "doc s0 = None" "pdf_files s0 (pdf_path s0) = Some (map Page wss)" "wss \<noteq> []"
    and engine: "widget_update s0 = pymupdf_update"
    and at: "(cur = s0 \<and> css = wss) \<or> cur = reopened s0 css"
    and shape: "list_all2 (list_all2 (\<lambda>c x. c = x \<or> c = round_trip_widget x)) css wss"
    and i: "i < length wss" and j: "j < length (wss ! i)"
    and a: "extract_widget m (wss ! i ! j) = Inr a"
    and n: "field_name (wss ! i ! j) = Some n" and nne: "n \<noteq> []"
    and box: "integer_rect (rect (wss ! i ! j))"
    and dist: "distinct (map field_name (wss ! i))"
    and body: "update_body (ann_data a) = Inr body"
  shows "update_field_by_anotation_id_and_page_number cur n (JInt (int i + 1)) (AsDict body) =
         (Inr True, reopened s0 (css[i := (css ! i)[j := round_trip_widget (wss ! i ! j)]]))"
proof -
  let ?d = "\<lparr>is_closed = False, doc_pages = map Page css\<rparr>"
  let ?x = "wss ! i ! j"
  let ?u = "\<lparr>uf_default_value = JStr (dr_default_value (data_reference a)),
            uf_label = json_of_label (ann_label a),
            uf_position = Some (ann_position a),
            uf_formatting = Some (ann_formatting a)\<rparr>"
  have len: "length css = length wss" using shape by (rule list_all2_lengthD)
  have page: "list_all2 (\<lambda>c x. c = x \<or> c = round_trip_widget x) (css ! i) (wss ! i)"
    using shape i by (rule list_all2_nthD2)
  have leni: "length (css ! i) = length (wss ! i)" using page by (rule list_all2_lengthD)
  have y: "css ! i ! j = ?x \<or> css ! i ! j = round_trip_widget ?x"
    using page j by (rule list_all2_nthD2)
  have e: "ensure_open cur = (Inr ?d, reopened s0 css)"
    using base at len by (rule ensure_open_round_trip)
  have p: "page_index (JInt (int i + 1)) = Inr (int i)" by simp
  have g: "doc_getitem ?d (int i) = Inr (i, css ! i)"
    using i len by (simp add: doc_getitem_nat)
  have names: "map field_name (css ! i) = map field_name (wss ! i)"
    using page by (rule round_tripped_names)
  have "find_first (\<lambda>w. field_name w = field_name ?x) (wss ! i) = Some j"
    using dist j by (rule find_first_distinct)
  then have f: "find_widget_by_annotation_id (css ! i) n = Some j"
    unfolding find_widget_by_annotation_id_def n[symmetric]
    by (simp add: find_first_cong[OF names])
  have "body = [(''default_value'', JStr (dr_default_value (data_reference a))),
              (''label'', json_of_label (ann_label a)),
              (''position'',
                 JObj [(''x'', pos_x (ann_position a)), (''y'', pos_y (ann_position a)),
                       (''width'', pos_width (ann_position a)),
                       (''height'', pos_height (ann_position a)),
                       (''unit'', pos_unit (ann_position a))]),
              (''formatting'',
                 JObj [(''font_size'', font_size (ann_formatting a)),
                       (''font_family'', font_family (ann_formatting a)),
                       (''alignment'', alignment (ann_formatting a)),
                       (''max_length'', max_length (ann_formatting a)),
                       (''pattern'', pattern (ann_formatting a)),
                       (''required'', required (ann_formatting a))])]"
    using body by (simp add: update_body_ann_data)
  then have nf: "normalize_field_value (AsDict body) = Inr ?u"
    by (simp only: exported_payload)
  have v: "widget_update (reopened s0 css) = pymupdf_update"
    using engine by (simp add: reopened_def)
  have ap: "apply_update (widget_update (reopened s0 css)) ?u (css ! i ! j) =
            (None, round_trip_widget ?x)"
    unfolding v using a box n nne y by (rule round_trip_apply)
  have put: "(reopened s0 css)
      \<lparr>doc := Some (put_widget ?d i j (css ! i) (round_trip_widget ?x))\<rparr> =
      reopened s0 (css[i := (css ! i)[j := round_trip_widget ?x]])"
    by (simp add: reopened_def put_widget_def map_update)
  show ?thesis
    unfolding update_field_by_anotation_id_and_page_number_def
    by (simp add: update_field_resolved[where lk = "\<lambda>ws. find_widget_by_annotation_id ws n",
          OF e p g f nf] ap put)
qed

lemma nth_nested_update:
  assumes "i < length css" "j < length (css ! i)"
  shows "css[i := (css ! i)[j := w]] ! i' ! j' =
         (if i' = i \<and> j' = j then w else css ! i' ! j')"
  using assms by (cases "i' = i"; cases "j' = j") simp_all

lemma round_tripped_update:
  assumes shape: "list_all2 (list_all2 (\<lambda>c x. c = x \<or> c = round_trip_widget x)) css wss"
    and i: "i < length wss" and j: "j < length (wss ! i)"
  shows "list_all2 (list_all2 (\<lambda>c x. c = x \<or> c = round_trip_widget x))
           (css[i := (css ! i)[j := round_trip_widget (wss ! i ! j)]]) wss"
proof -
  let ?P = "\<lambda>c x. c = x \<or> c = round_trip_widget x"
  have page: "list_all2 ?P (css ! i) (wss ! i)"
    using shape i by (rule list_all2_nthD2)
  have "list_all2 ?P ((css ! i)[j := round_trip_widget (wss ! i ! j)])
          ((wss ! i)[j := wss ! i ! j])"
    using page by (rule list_all2_update_cong) simp
  then have row: "list_all2 ?P ((css ! i)[j := round_trip_widget (wss ! i ! j)]) (wss ! i)"
    by simp
  have "list_all2 (list_all2 ?P) (css[i := (css ! i)[j := round_trip_widget (wss ! i ! j)]])
          (wss[i := wss ! i])"
    using shape row by (rule list_all2_update_cong)
  then show ?thesis by simp
qed

lemma round_trip_run:
  assumes base: "doc s0 = None" "pdf_files s0 (pdf_path s0) = Some (map Page wss)" "wss \<noteq> []"
    and engine: "widget_update s0 = pymupdf_update"
    and dist: "\<forall>i < length wss. distinct (map field_name (wss ! i))"
  shows "(\<forall>el \<in> set L. \<exists>n i j m a.
            el = (n, JInt (int i + 1), ann_data a) \<and> i < length wss \<and> j < length (wss ! i) \<and>
            extract_widget m (wss ! i ! j) = Inr a \<and> field_name (wss ! i ! j) = Some n \<and>
            n \<noteq> [] \<and> integer_rect (rect (wss ! i ! j))) \<Longrightarrow>
         (cur = s0 \<and> css = wss) \<or> cur = reopened s0 css \<Longrightarrow>
         list_all2 (list_all2 (\<lambda>c x. c = x \<or> c = round_trip_widget x)) css wss \<Longrightarrow>
         \<exists>css'. apply_planned cur L = (Inr True, if L = [] then cur else reopened s0 css') \<and>
            (L = [] \<longrightarrow> css' = css) \<and>
            list_all2 (list_all2 (\<lambda>c x. c = x \<or> c = round_trip_widget x)) css' wss \<and>
            (\<forall>i j. i < length wss \<longrightarrow> j < length (wss ! i) \<longrightarrow>
                   css ! i ! j = round_trip_widget (wss ! i ! j) \<longrightarrow>
                   css' ! i ! j = round_trip_widget (wss ! i ! j)) \<and>
            (\<forall>el \<in> set L. \<forall>i j. i < length wss \<longrightarrow> j < length (wss ! i) \<longrightarrow>
                   fst (snd el) = JInt (int i + 1) \<longrightarrow> field_name (wss ! i ! j) = Some (fst el) \<longrightarrow>
                   css' ! i ! j = round_trip_widget (wss ! i ! j))"
proof (induction L arbitrary: cur css)
  case Nil
  then show ?case by (intro exI[of _ css]) simp
next
  case (Cons el L)
  let ?P = "\<lambda>c x. c = x \<or> c = round_trip_widget x"
  from Cons.prems(1) obtain n i j m a where
    el: "el = (n, JInt (int i + 1), ann_data a)" and i: "i < length wss"
    and j: "j < length (wss ! i)" and a: "extract_widget m (wss ! i ! j) = Inr a"
    and n: "field_name (wss ! i ! j) = Some n" and nne: "n \<noteq> []"
    and box: "integer_rect (rect (wss ! i ! j))" by auto
  from Cons.prems(1) have good: "\<forall>el \<in> set L. \<exists>n i j m a.
            el = (n, JInt (int i + 1), ann_data a) \<and> i < length wss \<and> j < length (wss ! i) \<and>
            extract_widget m (wss ! i ! j) = Inr a \<and> field_name (wss ! i ! j) = Some n \<and>
            n \<noteq> [] \<and> integer_rect (rect (wss ! i ! j))"
    by simp
  let ?x = "wss ! i ! j"
  let ?css1 = "css[i := (css ! i)[j := round_trip_widget ?x]]"
  have len: "length css = length wss" using Cons.prems(3) by (rule list_all2_lengthD)
  have "list_all2 ?P (css ! i) (wss ! i)" using Cons.prems(3) i by (rule list_all2_nthD2)
  then have leni: "length (css ! i) = length (wss ! i)" by (rule list_all2_lengthD)
  have di: "distinct (map field_name (wss ! i))" using dist i by simp
  obtain body where body: "update_body (ann_data a) = Inr body"
    by (simp add: update_body_ann_data)
  have step: "update_field_by_anotation_id_and_page_number cur n (JInt (int i + 1)) (AsDict body) =
         (Inr True, reopened s0 ?css1)"
    using base engine Cons.prems(2) Cons.prems(3) i j a n nne box di body
    by (rule round_trip_step)
  have run: "apply_planned cur (el # L) = apply_planned (reopened s0 ?css1) L"
    unfolding el by (simp add: body step)
  have shape1: "list_all2 (list_all2 ?P) ?css1 wss"
    using Cons.prems(3) i j by (rule round_tripped_update)
  from Cons.IH[OF good _ shape1, of "reopened s0 ?css1"] obtain css' where
    r: "apply_planned (reopened s0 ?css1) L =
          (Inr True, if L = [] then reopened s0 ?css1 else reopened s0 css')"
    and e: "L = [] \<longrightarrow> css' = ?css1"
    and shape': "list_all2 (list_all2 ?P) css' wss"
    and keep: "\<forall>i j. i < length wss \<longrightarrow> j < length (wss ! i) \<longrightarrow>
                   ?css1 ! i ! j = round_trip_widget (wss ! i ! j) \<longrightarrow>
                   css' ! i ! j = round_trip_widget (wss ! i ! j)"
    and hit: "\<forall>el \<in> set L. \<forall>i j. i < length wss \<longrightarrow> j < length (wss ! i) \<longrightarrow>
                   fst (snd el) = JInt (int i + 1) \<longrightarrow> field_name (wss ! i ! j) = Some (fst el) \<longrightarrow>
                   css' ! i ! j = round_trip_widget (wss ! i ! j)"
    by blast
  have nth1: "?css1 ! i' ! j' = (if i' = i \<and> j' = j then round_trip_widget ?x else css ! i' ! j')"
    for i' j'
    using i j len leni by (simp add: nth_nested_update)
  have c1: "apply_planned cur (el # L) =
              (Inr True, if el # L = [] then cur else reopened s0 css')"
    using run r e by (cases "L = []") simp_all
  have c2: "\<forall>i j. i < length wss \<longrightarrow> j < length (wss ! i) \<longrightarrow>
                   css ! i ! j = round_trip_widget (wss ! i ! j) \<longrightarrow>
                   css' ! i ! j = round_trip_widget (wss ! i ! j)"
  proof (intro allI impI)
    fix i' j'
    assume h: "i' < length wss" "j' < length (wss ! i')"
      "css ! i' ! j' = round_trip_widget (wss ! i' ! j')"
    then have "?css1 ! i' ! j' = round_trip_widget (wss ! i' ! j')"
      by (auto simp: nth1)
    with keep h show "css' ! i' ! j' = round_trip_widget (wss ! i' ! j')" by blast
  qed
  have here: "css' ! i ! j = round_trip_widget ?x"
    using keep i j by (simp add: nth1)
  have c3: "\<forall>el' \<in> set (el # L). \<forall>i j. i < length wss \<longrightarrow> j < length (wss ! i) \<longrightarrow>
                   fst (snd el') = JInt (int i + 1) \<longrightarrow> field_name (wss ! i ! j) = Some (fst el') \<longrightarrow>
                   css' ! i ! j = round_trip_widget (wss ! i ! j)"
  proof (intro ballI allI impI)
    fix el' i' j'
    assume h: "el' \<in> set (el # L)" "i' < length wss" "j' < length (wss ! i')"
      "fst (snd el') = JInt (int i' + 1)" "field_name (wss ! i' ! j') = Some (fst el')"
    show "css' ! i' ! j' = round_trip_widget (wss ! i' ! j')"
    proof (cases "el' = el")
      case True
      with h el have ii: "i' = i" and nn: "field_name (wss ! i ! j') = Some n" by simp_all
      have "map field_name (wss ! i) ! j' = map field_name (wss ! i) ! j"
        using h(3) j ii nn n by simp
      with di h(3) j ii have "j' = j"
        by (simp add: nth_eq_iff_index_eq del: nth_map)
      with ii here show ?thesis by simp
    next
      case False
      with h(1) have "el' \<in> set L" by simp
      with hit h show ?thesis by blast
    qed
  qed
  show ?case
    using c1 shape' c2 c3 by (intro exI[of _ css']) simp
qed

lemma walk_widgets_mem:
  assumes "a \<in> set (walk_widgets ws [])"
  shows "\<exists>m j. j < length ws \<and> extract_widget m (ws ! j) = Inr a"
proof -
  let ?fs = "filter extractable ws"
  from assms obtain k where k: "k < length (walk_widgets ws [])" "walk_widgets ws [] ! k = a"
    by (auto simp: in_set_conv_nth)
  have "(\<lambda>a (n, w). extract_widget n w = Inr a) (walk_widgets ws [] ! k) (enumerate 0 ?fs ! k)"
    using walk_widgets_order[of ws] k(1) by (rule list_all2_nthD)
  moreover have kf: "k < length ?fs"
    using walk_widgets_order[of ws] k(1) by (auto dest: list_all2_lengthD)
  ultimately have e: "extract_widget k (?fs ! k) = Inr a"
    using k(2) by (simp add: nth_enumerate_eq)
  have "?fs ! k \<in> set ws" using kf by (metis filter_is_subset nth_mem subsetD)
  then obtain j where j: "j < length ws" "ws ! j = ?fs ! k" by (metis in_set_conv_nth)
  from e j(2) have "extract_widget k (ws ! j) = Inr a" by simp
  with j(1) show ?thesis by blast
qed

lemma walk_widgets_covers:
  assumes "j < length ws" "extractable (ws ! j)"
  shows "\<exists>m a. a \<in> set (walk_widgets ws []) \<and> extract_widget m (ws ! j) = Inr a"
proof -
  let ?fs = "filter extractable ws"
  have "ws ! j \<in> set ?fs" using assms by simp
  then obtain k where k: "k < length ?fs" "?fs ! k = ws ! j" by (metis in_set_conv_nth)
  have "(\<lambda>a (n, w). extract_widget n w = Inr a) (walk_widgets ws [] ! k) (enumerate 0 ?fs ! k)"
    using walk_widgets_order[of ws] by (rule list_all2_nthD2) (simp add: k(1))
  then have e: "extract_widget k (ws ! j) = Inr (walk_widgets ws [] ! k)"
    using k by (simp add: nth_enumerate_eq)
  have "k < length (walk_widgets ws [])"
    using walk_widgets_order[of ws] k(1) by (auto dest: list_all2_lengthD)
  then have "walk_widgets ws [] ! k \<in> set (walk_widgets ws [])" by simp
  with e show ?thesis by blast
qed

lemma member_export:
  "items (member (export_to_json s) ''pages'') = map page_data (pages s)"
  "items (member (page_data p) ''annotations'') = map ann_data (annotations p)"
  "member (page_data p) ''page_number'' = JInt (page_number p)"
  "member (ann_data a) ''id'' = JStr (ann_id a)"
  by (simp_all add: member_def items_def export_to_json_def page_data_def ann_data_def
      dict_get_def)

lemma export_well_formed: "pages s \<noteq> [] \<Longrightarrow> well_formed_import (export_to_json s)"
  by (simp add: well_formed_import_def well_formed_page_def is_object_def export_to_json_def
      page_data_def ann_data_def dict_get_def list_all_iff)

lemma round_trip_plan_mem:
  "el \<in> set (planned_updates (pages s) (export_to_json s)) =
     (\<exists>p a p' a'. p \<in> set (pages s) \<and> a \<in> set (annotations p) \<and>
        p' \<in> set (pages s) \<and> a' \<in> set (annotations p') \<and> ann_id a' = ann_id a \<and>
        el = (ann_id a, JInt (page_number p'), ann_data a'))"
  by (auto simp: planned_updates_def member_export)

lemma extracted_id:
  assumes "extract_widget m x = Inr a" "field_name x = Some n" "n \<noteq> []"
  shows "ann_id a = n"
  using extract_widget_InrD[OF assms(1)] assms(2,3) by auto

lemma round_trip_run_all:
  assumes files: "pdf_files s (pdf_path s) = Some (map Page wss)"
    and closed: "doc s = None"
    and tree: "pages s =
       map (\<lambda>i. \<lparr>page_number = int i + 1, annotations = walk_widgets (wss ! i) []\<rparr>)
         (filter (\<lambda>i. filter extractable (wss ! i) \<noteq> []) [0..<length wss])"
    and named: "list_all (list_all (\<lambda>x. field_name x \<noteq> None \<and> field_name x \<noteq> Some [])) wss"
    and dist: "list_all (\<lambda>ws. distinct (map field_name ws)) wss"
    and boxes: "list_all (list_all (\<lambda>x. integer_rect (rect x))) wss"
    and some: "list_ex (\<lambda>ws. ws \<noteq> []) wss"
    and engine: "widget_update s = pymupdf_update"
  shows "apply_planned s (planned_updates (pages s) (export_to_json s)) =
         (Inr True, reopened s (map (map round_trip_widget) wss))"
proof -
  let ?L = "planned_updates (pages s) (export_to_json s)"
  let ?P = "\<lambda>c x. c = x \<or> c = round_trip_widget x"
  let ?page = "\<lambda>i. \<lparr>page_number = int i + 1, annotations = walk_widgets (wss ! i) []\<rparr>"
  have ne: "wss \<noteq> []" using some by auto
  have name: "\<exists>n. field_name (wss ! i ! j) = Some n \<and> n \<noteq> []"
    if "i < length wss" "j < length (wss ! i)" for i j
  proof -
    have "wss ! i ! j \<in> set (wss ! i)" "wss ! i \<in> set wss" using that by simp_all
    with named have "field_name (wss ! i ! j) \<noteq> None \<and> field_name (wss ! i ! j) \<noteq> Some []"
      by (simp add: list_all_iff)
    then show ?thesis by (cases "field_name (wss ! i ! j)") simp_all
  qed
  have box: "integer_rect (rect (wss ! i ! j))"
    if "i < length wss" "j < length (wss ! i)" for i j
  proof -
    have "wss ! i ! j \<in> set (wss ! i)" "wss ! i \<in> set wss" using that by simp_all
    with boxes show ?thesis by (simp add: list_all_iff)
  qed
  have di: "\<forall>i < length wss. distinct (map field_name (wss ! i))"
    using dist by (simp add: list_all_iff)
  have page_mem: "\<exists>i < length wss. p = ?page i" if "p \<in> set (pages s)" for p
    using that unfolding tree by auto
  have good: "\<forall>el \<in> set ?L. \<exists>n i j m a.
            el = (n, JInt (int i + 1), ann_data a) \<and> i < length wss \<and> j < length (wss ! i) \<and>
            extract_widget m (wss ! i ! j) = Inr a \<and> field_name (wss ! i ! j) = Some n \<and>
            n \<noteq> [] \<and> integer_rect (rect (wss ! i ! j))"
  proof
    fix el assume "el \<in> set ?L"
    then have "\<exists>p a p' a'. p \<in> set (pages s) \<and> a \<in> set (annotations p) \<and>
        p' \<in> set (pages s) \<and> a' \<in> set (annotations p') \<and> ann_id a' = ann_id a \<and>
        el = (ann_id a, JInt (page_number p'), ann_data a')"
      by (simp only: round_trip_plan_mem)
    then obtain a p' a' where
      m: "p' \<in> set (pages s)" "a' \<in> set (annotations p')"
         "ann_id a' = ann_id (a :: Annotation)"
         "el = (ann_id a, JInt (page_number p'), ann_data a')"
      by blast
    from page_mem[OF m(1)] obtain i where i: "i < length wss" "p' = ?page i" by blast
    with m(2) have "a' \<in> set (walk_widgets (wss ! i) [])" by simp
    from walk_widgets_mem[OF this] obtain k j where
      j: "j < length (wss ! i)" "extract_widget k (wss ! i ! j) = Inr a'" by blast
    from name[OF i(1) j(1)] obtain n where n: "field_name (wss ! i ! j) = Some n" "n \<noteq> []"
      by blast
    have "ann_id a' = n" using j(2) n by (rule extracted_id)
    with m(3,4) i j n box[OF i(1) j(1)] show "\<exists>n i j m a.
            el = (n, JInt (int i + 1), ann_data a) \<and> i < length wss \<and> j < length (wss ! i) \<and>
            extract_widget m (wss ! i ! j) = Inr a \<and> field_name (wss ! i ! j) = Some n \<and>
            n \<noteq> [] \<and> integer_rect (rect (wss ! i ! j))"
      by (intro exI[of _ n] exI[of _ i] exI[of _ j] exI[of _ k] exI[of _ a']) simp
  qed
  have covered: "\<exists>el \<in> set ?L. fst (snd el) = JInt (int i + 1) \<and>
                   field_name (wss ! i ! j) = Some (fst el)"
    if i: "i < length wss" and j: "j < length (wss ! i)" for i j
  proof -
    have e: "extractable (wss ! i ! j)" using box[OF i j] by (rule integer_rect_extractable)
    from walk_widgets_covers[OF j e] obtain k a where
      a: "a \<in> set (walk_widgets (wss ! i) [])" "extract_widget k (wss ! i ! j) = Inr a"
      by blast
    from name[OF i j] obtain n where n: "field_name (wss ! i ! j) = Some n" "n \<noteq> []"
      by blast
    have id: "ann_id a = n" using a(2) n by (rule extracted_id)
    have "wss ! i ! j \<in> set (wss ! i)" using j by simp
    with e have "filter extractable (wss ! i) \<noteq> []"
      unfolding filter_empty_conv by blast
    with i have p: "?page i \<in> set (pages s)" unfolding tree by simp
    have "(ann_id a, JInt (page_number (?page i)), ann_data a) \<in> set ?L"
      unfolding round_trip_plan_mem using p a(1) by (intro exI[of _ "?page i"] exI[of _ a]) simp
    then have "(n, JInt (int i + 1), ann_data a) \<in> set ?L" using id by simp
    with n(1) show ?thesis by force
  qed
  have Lne: "?L \<noteq> []"
  proof -
    from some obtain ws where ws: "ws \<in> set wss" "ws \<noteq> []" by (auto simp: list_ex_iff)
    obtain x where "x \<in> set ws" using ws(2) by (cases ws) auto
    with ws(1) obtain ws x where "ws \<in> set wss" "x \<in> set ws" by blast
    then obtain i j where "i < length wss" "j < length (wss ! i)"
      by (metis in_set_conv_nth)
    from covered[OF this] show ?thesis by auto
  qed
  have refl: "list_all2 (list_all2 ?P) wss wss"
    by (simp add: list_all2_conv_all_nth)
  from round_trip_run[OF closed files ne engine di good _ refl, of s] Lne
  obtain css' where
    run: "apply_planned s ?L = (Inr True, reopened s css')"
    and shape: "list_all2 (list_all2 ?P) css' wss"
    and hit: "\<forall>el \<in> set ?L. \<forall>i j. i < length wss \<longrightarrow> j < length (wss ! i) \<longrightarrow>
                   fst (snd el) = JInt (int i + 1) \<longrightarrow> field_name (wss ! i ! j) = Some (fst el) \<longrightarrow>
                   css' ! i ! j = round_trip_widget (wss ! i ! j)"
    by auto
  have len: "length css' = length wss" using shape by (rule list_all2_lengthD)
  have "css' ! i = map round_trip_widget (wss ! i)" if i: "i < length wss" for i
  proof -
    have row: "list_all2 ?P (css' ! i) (wss ! i)" using shape i by (rule list_all2_nthD2)
    then have leni: "length (css' ! i) = length (wss ! i)" by (rule list_all2_lengthD)
    have "css' ! i ! j = round_trip_widget (wss ! i ! j)" if j: "j < length (wss ! i)" for j
      using covered[OF i j] hit i j by blast
    with leni show ?thesis by (simp add: list_eq_iff_nth_eq)
  qed
  with len have "css' = map (map round_trip_widget) wss" by (simp add: list_eq_iff_nth_eq)
  with run show ?thesis by simp
qed

text \<open>
  C4, as the code has it, on PyMuPDF. Take a document whose pages all load, with at
  least one widget, whose widgets all have a non-empty field name that no other widget
  of the same page has and a non-empty rectangle with integer coordinates. Construct
  the form, export it, and import the export back unmodified. The call returns True,
  and the document it leaves open holds every widget with its field name, type, value,
  label and rectangle as they were, with font size 8, and with the font Helv, which is
  what the engine stores for the font family Arial of the export: the formatting is
  overwritten, whatever it was.
\<close>

theorem round_trip_effect:
  assumes files: "pdf_files w path = Some (map Page wss)"
    and engine: "widget_update w = pymupdf_update"
    and named: "list_all (list_all (\<lambda>x. field_name x \<noteq> None \<and> field_name x \<noteq> Some [])) wss"
    and dist: "list_all (\<lambda>ws. distinct (map field_name ws)) wss"
    and boxes: "list_all (list_all (\<lambda>x. integer_rect (rect x))) wss"
    and some: "list_ex (\<lambda>ws. ws \<noteq> []) wss"
    and s: "s = (snd (AnnotationForm_init w path nm yr ver))
                  \<lparr>json_files :=
                     (json_files w)
                       (json_path \<mapsto> export_to_json (snd (AnnotationForm_init w path nm yr ver)))\<rparr>"
  shows "load_updated_annotaion_json s json_path =
           (Inr True,
            reopened s
              (map (map (\<lambda>x. x\<lparr>text_fontsize := 8, text_font := Some ''Helv''\<rparr>)) wss))"
proof -
  let ?s1 = "snd (AnnotationForm_init w path nm yr ver)"
  note init = init_all_loadable[OF files, of nm yr ver]
  have s1: "pdf_files s (pdf_path s) = Some (map Page wss)" "doc s = None"
    "pages s =
       map (\<lambda>i. \<lparr>page_number = int i + 1, annotations = walk_widgets (wss ! i) []\<rparr>)
         (filter (\<lambda>i. filter extractable (wss ! i) \<noteq> []) [0..<length wss])"
    "widget_update s = pymupdf_update"
    unfolding s init using files engine by simp_all
  have ex: "export_to_json s = export_to_json ?s1"
    unfolding s by (simp add: export_to_json_def)
  have jf: "json_files s json_path = Some (export_to_json s)"
    unfolding ex unfolding s by simp
  have "filter (\<lambda>i. filter extractable (wss ! i) \<noteq> []) [0..<length wss] \<noteq> []"
  proof -
    from some obtain ws where ws: "ws \<in> set wss" "ws \<noteq> []" by (auto simp: list_ex_iff)
    obtain x where "x \<in> set ws" using ws(2) by (cases ws) auto
    with ws(1) obtain ws x where m: "ws \<in> set wss" "x \<in> set ws" by blast
    with boxes have "integer_rect (rect x)" by (simp add: list_all_iff)
    then have e: "extractable x" by (rule integer_rect_extractable)
    from m obtain i where "i < length wss" "x \<in> set (wss ! i)" by (metis in_set_conv_nth)
    with e have "i \<in> set [0..<length wss] \<and> filter extractable (wss ! i) \<noteq> []"
      by (auto simp: filter_empty_conv)
    then show ?thesis unfolding filter_empty_conv by blast
  qed
  then have "pages s \<noteq> []" unfolding s1(3) by simp
  then have wf: "well_formed_import (export_to_json s)" by (rule export_well_formed)
  have "load_updated_annotaion_json s json_path =
        apply_planned s (planned_updates (pages s) (export_to_json s))"
    using jf wf by (rule load_follows_plan)
  also have "\<dots> = (Inr True, reopened s (map (map round_trip_widget) wss))"
    using s1(1,2,3) named dist boxes some s1(4) by (rule round_trip_run_all)
  finally show ?thesis
    by (simp add: round_trip_widget_def[abs_def])
qed

text \<open>
  C4 on the one-page form: its document meets the conditions, and importing its own
  export leaves the widget with font size 8 and font Helv.
\<close>

theorem round_trip_effect_witness:
  "pdf_files example_world ''f.pdf'' = Some (map Page [[example_widget]])
   \<and> widget_update example_world = pymupdf_update
   \<and> list_all (list_all (\<lambda>x. field_name x \<noteq> None \<and> field_name x \<noteq> Some [])) [[example_widget]]
   \<and> list_all (\<lambda>ws. distinct (map field_name ws)) [[example_widget]]
   \<and> list_all (list_all (\<lambda>x. integer_rect (rect x))) [[example_widget]]
   \<and> list_ex (\<lambda>ws. ws \<noteq> []) [[example_widget]]
   \<and> load_updated_annotaion_json
        (example_form\<lparr>json_files := [''j'' \<mapsto> export_to_json example_form]\<rparr>) ''j''
      = (Inr True,
         reopened (example_form\<lparr>json_files := [''j'' \<mapsto> export_to_json example_form]\<rparr>)
           [[example_widget\<lparr>text_fontsize := 8, text_font := Some ''Helv''\<rparr>]])"
proof -
  have h1: "pdf_files example_world ''f.pdf'' = Some (map Page [[example_widget]])"
    by (simp add: example_world_def)
  have h2: "widget_update example_world = pymupdf_update" by (simp add: example_world_def)
  have h3: "list_all (list_all (\<lambda>x. field_name x \<noteq> None \<and> field_name x \<noteq> Some []))
              [[example_widget]]"
    by (simp add: example_widget_def)
  have h4: "list_all (\<lambda>ws. distinct (map field_name ws)) [[example_widget]]" by simp
  have h5: "list_all (list_all (\<lambda>x. integer_rect (rect x))) [[example_widget]]"
    by (simp add: example_widget_def integer_rect_def rect_is_empty_def)
  have h6: "list_ex (\<lambda>ws. ws \<noteq> []) [[example_widget]]" by simp
  have jf: "json_files example_world = Map.empty" by (simp add: example_world_def)
  have nm: "field_name example_widget = Some ''a''" by (simp add: example_widget_def)
  have box: "integer_rect (rect example_widget)" using h5 by simp
  show ?thesis
    using round_trip_effect[OF h1 h2 h3 h4 h5 h6 refl,
        where nm = "''form''" and yr = 2024 and ver = "''1''" and json_path = "''j''"]
    by (simp add: h1 h2 nm box example_form_constructed jf)
qed

text \<open>The round trip as the updates it plans, on a document that yields annotations.\<close>

lemma round_trip_result_plan:
  assumes "AnnotationForm_init (example_world\<lparr>pdf_files := [''f.pdf'' \<mapsto> ps]\<rparr>)
             ''f.pdf'' ''form'' 2024 ''1'' = (r0, s0)"
    and "pages s0 \<noteq> []"
  shows "round_trip_result ps =
     (case apply_planned (s0\<lparr>json_files := [''j'' \<mapsto> export_to_json s0]\<rparr>)
             (planned_updates (pages s0) (export_to_json s0)) of
        (r, s) \<Rightarrow> (r, map_option doc_pages (doc s)))"
proof -
  let ?s = "s0\<lparr>json_files := [''j'' \<mapsto> export_to_json s0]\<rparr>"
  have f: "round_trip_form ps = ?s" by (simp add: round_trip_form_def assms(1))
  have e: "export_to_json ?s = export_to_json s0" by (simp add: export_to_json_def)
  have j: "json_files ?s ''j'' = Some (export_to_json ?s)" by (simp add: export_to_json_def)
  have wf: "well_formed_import (export_to_json ?s)"
    by (rule export_well_formed) (simp add: assms(2))
  have "load_updated_annotaion_json ?s ''j'' =
        apply_planned ?s (planned_updates (pages ?s) (export_to_json ?s))"
    using j wf by (rule load_follows_plan)
  then show ?thesis by (simp add: round_trip_result_def f e)
qed

lemma one_widget_form:
  assumes "extract_widget 0 x = Inr a"
  shows "AnnotationForm_init (example_world\<lparr>pdf_files := [''f.pdf'' \<mapsto> [Page [x]]]\<rparr>)
           ''f.pdf'' ''form'' 2024 ''1'' =
         (Inr (),
          example_form\<lparr>pdf_files := [''f.pdf'' \<mapsto> [Page [x]]],
                       pages := [\<lparr>page_number = 1, annotations = [a]\<rparr>]\<rparr>)"
  by (simp add: AnnotationForm_init_def read_pdf_def example_world_def example_form_def
      engine_defs assms Let_def)

lemma example_widget_extracted: "extract_widget 0 example_widget = Inr example_annotation"
  by (simp add: extract_widget_def example_widget_def example_annotation_def
      map_pymupdf_field_type_def Let_def)

lemma floor_half_point: "\<lfloor>21 / 2 :: rat\<rfloor> = 10"
  by (simp add: floor_eq_iff)

lemma half_point_widget_extracted:
  "extract_widget 0 half_point_widget = Inr example_annotation"
  by (simp add: extract_widget_def half_point_widget_def example_widget_def
      example_annotation_def map_pymupdf_field_type_def Let_def floor_half_point)

lemma flat_widget_extracted:
  "extract_widget 0 flat_widget =
     Inr (example_annotation
            \<lparr>ann_position :=
               \<lparr>pos_x = JInt 10, pos_y = JInt 20, pos_width = JInt 0,
                pos_height = JInt 25, pos_unit = JStr ''pt''\<rparr>\<rparr>)"
  by (simp add: extract_widget_def flat_widget_def example_widget_def
      example_annotation_def map_pymupdf_field_type_def Let_def)

lemma unnamed_widget_extracted:
  "extract_widget 0 unnamed_widget =
     Inr (example_annotation
            \<lparr>ann_id := ''field_0'', ann_type := ''checkbox'',
             data_reference := \<lparr>dr_path = ''field_0'', dr_default_value = ''v''\<rparr>\<rparr>)"
  by (simp add: extract_widget_def unnamed_widget_def example_widget_def
      example_annotation_def map_pymupdf_field_type_def Let_def string_of_nat_0)

lemma twin_widget_extracted:
  "extract_widget n twin_widget =
     Inr (example_annotation
            \<lparr>ann_position :=
               \<lparr>pos_x = JInt 50, pos_y = JInt 20, pos_width = JInt 20,
                pos_height = JInt 25, pos_unit = JStr ''pt''\<rparr>\<rparr>)"
  by (simp add: extract_widget_def twin_widget_def example_widget_def
      example_annotation_def map_pymupdf_field_type_def Let_def)

lemma round_trip_example:
  "round_trip_result [Page [example_widget]] =
     (Inr True, Some [Page [example_widget\<lparr>text_fontsize := 8\<rparr>]])"
  unfolding round_trip_result_plan[OF one_widget_form[OF example_widget_extracted], simplified]
  by (simp add: planned_updates_def member_export update_body_ann_data)
     (simp add: example_form_def example_widget_def example_annotation_def json_of_label_def
        engine_defs update_defs payload_defs)

lemma round_trip_half_point:
  "round_trip_result [Page [half_point_widget]] =
     (Inr True, Some [Page [example_widget\<lparr>text_fontsize := 8\<rparr>]])"
  unfolding round_trip_result_plan[OF one_widget_form[OF half_point_widget_extracted], simplified]
  by (simp add: planned_updates_def member_export update_body_ann_data)
     (simp add: example_form_def half_point_widget_def example_widget_def
        example_annotation_def json_of_label_def engine_defs update_defs payload_defs)

lemma round_trip_flat:
  "round_trip_result [Page [flat_widget]] = (Inl ValueError, Some [Page [flat_widget]])"
  unfolding round_trip_result_plan[OF one_widget_form[OF flat_widget_extracted], simplified]
  by (simp add: planned_updates_def member_export update_body_ann_data)
     (simp add: example_form_def flat_widget_def example_widget_def
        example_annotation_def json_of_label_def engine_defs update_defs payload_defs)

lemma round_trip_unnamed:
  "round_trip_result [Page [unnamed_widget]] =
     (Inl (WidgetNotFound ''field_0''), Some [Page [unnamed_widget]])"
  unfolding round_trip_result_plan[OF one_widget_form[OF unnamed_widget_extracted], simplified]
  by (simp add: planned_updates_def member_export update_body_ann_data)
     (simp add: example_form_def unnamed_widget_def example_widget_def
        example_annotation_def json_of_label_def engine_defs update_defs payload_defs)

lemma twin_form:
  "AnnotationForm_init
     (example_world\<lparr>pdf_files := [''f.pdf'' \<mapsto> [Page [example_widget, twin_widget]]]\<rparr>)
     ''f.pdf'' ''form'' 2024 ''1'' =
   (Inr (),
    example_form
      \<lparr>pdf_files := [''f.pdf'' \<mapsto> [Page [example_widget, twin_widget]]],
       pages :=
         [\<lparr>page_number = 1,
           annotations =
             [example_annotation,
              example_annotation
                \<lparr>ann_position :=
                   \<lparr>pos_x = JInt 50, pos_y = JInt 20, pos_width = JInt 20,
                    pos_height = JInt 25, pos_unit = JStr ''pt''\<rparr>\<rparr>]\<rparr>]\<rparr>)"
  by (simp add: AnnotationForm_init_def read_pdf_def example_world_def example_form_def
      engine_defs example_widget_extracted twin_widget_extracted Let_def)

lemma round_trip_twins:
  "round_trip_result [Page [example_widget, twin_widget]] =
     (Inr True, Some [Page [twin_widget\<lparr>text_fontsize := 8\<rparr>, twin_widget]])"
proof -
  let ?b = "example_annotation
              \<lparr>ann_position :=
                 \<lparr>pos_x = JInt 50, pos_y = JInt 20, pos_width = JInt 20,
                  pos_height = JInt 25, pos_unit = JStr ''pt''\<rparr>\<rparr>"
  let ?s = "example_form
      \<lparr>pdf_files := [''f.pdf'' \<mapsto> [Page [example_widget, twin_widget]]],
       pages := [\<lparr>page_number = 1, annotations = [example_annotation, ?b]\<rparr>]\<rparr>"
  have plan: "planned_updates (pages ?s) (export_to_json ?s) =
     [(''a'', JInt 1, ann_data example_annotation), (''a'', JInt 1, ann_data ?b),
      (''a'', JInt 1, ann_data example_annotation), (''a'', JInt 1, ann_data ?b)]"
    by (simp add: planned_updates_def member_export) (simp add: example_annotation_def)
  have pg: "pages ?s \<noteq> []" by simp
  show ?thesis
    unfolding round_trip_result_plan[OF twin_form pg] plan
    by (simp add: update_body_ann_data example_form_def twin_widget_def example_widget_def
        example_annotation_def json_of_label_def engine_defs update_defs payload_defs)
qed

lemma round_trip_no_widget:
  "round_trip_result [Page []] = (Inl InvalidJson, None)"
  by (simp add: round_trip_result_def round_trip_form_def AnnotationForm_init_def
      read_pdf_def example_world_def engine_defs Let_def load_updated_annotaion_json_def
      export_to_json_def dict_get_def)

text \<open>
  C4, against the claim. The one-page form's widget has font size 12. Exporting the
  form and importing the export back, unmodified, returns True and leaves the widget
  with font size 8: the formatting of the export is not the widget's but the fixed one
  that extraction writes into every annotation. Nor is the rest safe outside the
  conditions above. A rectangle with half-point coordinates comes back as the box of its
  truncated position. Of two widgets of a page with the same field name, the first gets
  the rectangle of the second, and the second is never touched. For a widget without a
  field name the import raises, as no widget has the generated id; for a widget with an
  empty rectangle it raises, as the engine refuses the commit; and for a document without
  widgets it raises, as the exported list of pages is empty.
\<close>

theorem round_trip_is_not_a_no_op:
  "round_trip_result [Page [example_widget]] =
     (Inr True, Some [Page [example_widget\<lparr>text_fontsize := 8\<rparr>]])
   \<and> text_fontsize example_widget = 12
   \<and> round_trip_result [Page [half_point_widget]] =
       (Inr True, Some [Page [example_widget\<lparr>text_fontsize := 8\<rparr>]])
   \<and> rect half_point_widget \<noteq> rect example_widget
   \<and> round_trip_result [Page [example_widget, twin_widget]] =
       (Inr True, Some [Page [twin_widget\<lparr>text_fontsize := 8\<rparr>, twin_widget]])
   \<and> rect twin_widget \<noteq> rect example_widget
   \<and> round_trip_result [Page [unnamed_widget]] =
       (Inl (WidgetNotFound ''field_0''), Some [Page [unnamed_widget]])
   \<and> round_trip_result [Page [flat_widget]] = (Inl ValueError, Some [Page [flat_widget]])
   \<and> round_trip_result [Page []] = (Inl InvalidJson, None)"
  by (simp add: round_trip_example round_trip_half_point round_trip_twins round_trip_unnamed
      round_trip_flat round_trip_no_widget)
     (simp add: example_widget_def half_point_widget_def twin_widget_def)

end
